theory Spec2Isabelle
  imports
    Complex_Main
    "HOL-Library.Char_ord"
    "HOL-Library.List_Lexorder"
    "HOL-Library.Product_Lexorder"
begin

section \<open>Values, tables and errors\<close>

text \<open>
  The program is Python on top of pandas. A table (a pandas DataFrame) is modelled as the
  ordered list of its columns, each a label with its cells, together with the number of
  rows. Labels may repeat (a rename can produce two columns with one name), which is why
  the columns are an association list and not a map.

  A header cell that holds text becomes a text label; a header cell that holds a number
  becomes a number label (\<open>pd.read_excel\<close> keeps it as a Python int), on which
  \<open>col.lower()\<close> raises AttributeError.

  Numbers are real numbers: rounding of floating point values is not modelled. A time stamp
  is its count of nanoseconds since the epoch, as pandas stores it; a missing cell
  (None, NaN, NaT) is \<open>Null\<close>. Text is ASCII text: Python's case rules for other
  characters are not modelled.
\<close>

datatype error =
  AttributeError | KeyError | ValueError | TypeError | IndexError | InvalidIndexError

datatype label = Txt string | Nbr int

datatype cell = Null | Str string | Num real | Time int | Bool bool

record frame =
  nrows :: nat
  cols :: "(label \<times> cell list) list"

definition labels :: "frame \<Rightarrow> label list" where
  "labels df = map fst (cols df)"

text \<open>\<open>df[l]\<close> read: every column that carries the label, in table order. None is a
  KeyError, one is a Series, several are a DataFrame.\<close>

definition columns_named :: "frame \<Rightarrow> label \<Rightarrow> cell list list" where
  "columns_named df l = map snd (filter (\<lambda>kc. fst kc = l) (cols df))"

text \<open>\<open>df[l] = v\<close>: an existing label keeps its place and takes the new cells, a new
  label is appended as the last column.\<close>

definition set_column :: "frame \<Rightarrow> label \<Rightarrow> cell list \<Rightarrow> frame" where
  "set_column df l v =
     (if l \<in> set (labels df)
      then df\<lparr>cols := map (\<lambda>kc. if fst kc = l then (fst kc, v) else kc) (cols df)\<rparr>
      else df\<lparr>cols := cols df @ [(l, v)]\<rparr>)"

text \<open>\<open>str.lower()\<close> on ASCII text.\<close>

definition lower_char :: "char \<Rightarrow> char" where
  "lower_char c =
     (case map_of (zip ''ABCDEFGHIJKLMNOPQRSTUVWXYZ'' ''abcdefghijklmnopqrstuvwxyz'') c of
        Some d \<Rightarrow> d
      | None \<Rightarrow> c)"

definition lower :: "string \<Rightarrow> string" where
  "lower s = map lower_char s"

section \<open>DataProcessor: schema mapping\<close>

text \<open>\<open>get_column_mappings\<close>: the dictionary literal, in insertion order (the order
  in which \<open>.items()\<close> yields it).\<close>

definition get_column_mappings :: "(string \<times> string list) list" where
  "get_column_mappings =
    [(''incident_id'', [''incident_id'', ''id'', ''ticket_id'', ''case_id'', ''incident_number'']),
     (''title'', [''title'', ''summary'', ''description'', ''issue_title'', ''incident_title'']),
     (''category'', [''category'', ''type'', ''issue_type'', ''incident_type'']),
     (''priority'', [''priority'', ''severity'', ''impact'']),
     (''status'', [''status'', ''state'', ''current_status'']),
     (''created_date'',
        [''created_date'', ''create_date'', ''date_created'', ''incident_date'', ''created'']),
     (''resolved_date'', [''resolved_date'', ''resolution_date'', ''closed_date'', ''date_resolved'']),
     (''assigned_team'', [''assigned_team'', ''team'', ''backend_team'', ''responsible_team'']),
     (''resolution_time'', [''resolution_time'', ''time_to_resolve'', ''sla_time''])]"

text \<open>The test of the inner loop: \<open>col.lower() in [v.lower() for v in variations]\<close>.\<close>

definition matches :: "string list \<Rightarrow> string \<Rightarrow> bool" where
  "matches variations col = (lower col \<in> set (map lower variations))"

text \<open>The inner loop over \<open>df.columns\<close> for one standard name: the first column that
  matches is taken and the loop is left (\<open>break\<close>). A number label met before that
  raises AttributeError.\<close>

fun first_match :: "string list \<Rightarrow> label list \<Rightarrow> error + label option" where
  "first_match variations [] = Inr None"
| "first_match variations (Nbr n # rest) = Inl AttributeError"
| "first_match variations (Txt col # rest) =
     (if matches variations col then Inr (Some (Txt col)) else first_match variations rest)"

text \<open>The outer loop fills the dictionary \<open>standardized_columns\<close>, keyed by the source
  column.\<close>

fun collect_renames ::
  "(string \<times> string list) list \<Rightarrow> label list \<Rightarrow> (label \<rightharpoonup> string) \<Rightarrow> error + (label \<rightharpoonup> string)"
where
  "collect_renames [] columns standardized = Inr standardized"
| "collect_renames ((standard_name, variations) # rest) columns standardized =
     (case first_match variations columns of
        Inl e \<Rightarrow> Inl e
      | Inr None \<Rightarrow> collect_renames rest columns standardized
      | Inr (Some col) \<Rightarrow> collect_renames rest columns (standardized(col \<mapsto> standard_name)))"

text \<open>\<open>df.rename(columns=d)\<close>: every column whose label is a key of \<open>d\<close> takes the
  name stored under it; cells and column order stay.\<close>

definition rename :: "(label \<rightharpoonup> string) \<Rightarrow> frame \<Rightarrow> frame" where
  "rename d df =
     df\<lparr>cols := map (\<lambda>kc. (case d (fst kc) of Some s \<Rightarrow> Txt s | None \<Rightarrow> fst kc, snd kc)) (cols df)\<rparr>"

definition standardize_columns :: "frame \<Rightarrow> error + frame" where
  "standardize_columns df =
     (case collect_renames get_column_mappings (labels df) Map.empty of
        Inl e \<Rightarrow> Inl e
      | Inr standardized \<Rightarrow> Inr (rename standardized df))"

section \<open>DataProcessor: defaults, dates and derived fields\<close>

text \<open>
  Three things the pipeline takes from outside the repository are parameters of the model:
  the clock (\<open>datetime.now()\<close>, called once for each date column that is filled, so
  the reading may depend on the column), \<open>pd.to_datetime(_, errors='coerce')\<close> on a
  whole column (a time stamp or NaT for each cell), and \<open>strftime\<close> with a format.
\<close>

record library =
  now :: "string \<Rightarrow> int"
  to_datetime :: "cell list \<Rightarrow> error + int option list"
  strftime :: "string \<Rightarrow> int \<Rightarrow> string"

definition required_columns :: "string list" where
  "required_columns =
     [''incident_id'', ''title'', ''category'', ''priority'', ''status'',
      ''created_date'', ''resolved_date'', ''assigned_team'']"

text \<open>The body of the loop of \<open>add_missing_columns\<close> for one required column.\<close>

definition add_missing_column :: "library \<Rightarrow> frame \<Rightarrow> string \<Rightarrow> frame" where
  "add_missing_column lib df col =
     (if Txt col \<notin> set (labels df) then
        (if col = ''incident_id'' then
           set_column df (Txt col) (map (\<lambda>i. Num (real i)) [1..<nrows df + 1])
         else if col \<in> set [''title'', ''category'', ''priority'', ''status'', ''assigned_team''] then
           set_column df (Txt col) (replicate (nrows df) (Str ''Unknown''))
         else if col \<in> set [''created_date'', ''resolved_date''] then
           set_column df (Txt col) (replicate (nrows df) (Time (now lib col)))
         else df)
      else df)"

definition add_missing_columns :: "library \<Rightarrow> frame \<Rightarrow> frame" where
  "add_missing_columns lib df = foldl (add_missing_column lib) df required_columns"

definition timestamp_cell :: "int option \<Rightarrow> cell" where
  "timestamp_cell t = (case t of None \<Rightarrow> Null | Some ns \<Rightarrow> Time ns)"

text \<open>The body of the loop of \<open>convert_date_columns\<close>. When the label is carried by
  several columns, \<open>df[col]\<close> is a table and \<open>pd.to_datetime\<close> refuses it.\<close>

definition convert_date_column :: "library \<Rightarrow> frame \<Rightarrow> string \<Rightarrow> error + frame" where
  "convert_date_column lib df col =
     (if Txt col \<in> set (labels df) then
        (case columns_named df (Txt col) of
           [cells] \<Rightarrow>
             (case to_datetime lib cells of
                Inl e \<Rightarrow> Inl e
              | Inr ts \<Rightarrow> Inr (set_column df (Txt col) (map timestamp_cell ts)))
         | _ \<Rightarrow> Inl ValueError)
      else Inr df)"

definition convert_date_columns :: "library \<Rightarrow> frame \<Rightarrow> error + frame" where
  "convert_date_columns lib df =
     (case convert_date_column lib df ''created_date'' of
        Inl e \<Rightarrow> Inl e
      | Inr df' \<Rightarrow> convert_date_column lib df' ''resolved_date'')"

text \<open>A column on which the \<open>.dt\<close> accessor works holds time stamps and NaT only.\<close>

fun datetime_cell :: "cell \<Rightarrow> bool" where
  "datetime_cell Null = True"
| "datetime_cell (Time t) = True"
| "datetime_cell c = False"

text \<open>\<open>(resolved - created).dt.total_seconds() / 3600\<close> at one row; NaT on either
  side gives NaN.\<close>

fun elapsed_hours :: "cell \<Rightarrow> cell \<Rightarrow> cell" where
  "elapsed_hours (Time resolved) (Time created) =
     Num (real_of_int (resolved - created) / 1000000000 / 3600)"
| "elapsed_hours r c = Null"

fun strftime_cell :: "(int \<Rightarrow> string) \<Rightarrow> cell \<Rightarrow> cell" where
  "strftime_cell fmt (Time t) = Str (fmt t)"
| "strftime_cell fmt c = Null"

text \<open>\<open>df['resolution_time'] > 24\<close>: text and time stamps cannot be compared with a
  number (TypeError); a missing value compares false.\<close>

fun comparable :: "cell \<Rightarrow> bool" where
  "comparable (Str s) = False"
| "comparable (Time t) = False"
| "comparable c = True"

fun over_24 :: "cell \<Rightarrow> bool" where
  "over_24 (Num x) = (24 < x)"
| "over_24 c = False"

text \<open>The statements of \<open>calculate_derived_fields\<close>, one definition each: the
  resolution time (only when the table has no such column), the two bucket keys, the
  overdue flag. A read \<open>df[c]\<close> of a label that no column carries raises KeyError; on
  cells of the wrong kind, or on a label carried by several columns, pandas raises one of
  several exception classes, of which the model names one. \<open>preprocess_data\<close> catches
  them all alike, and no property below depends on the class.\<close>

definition derive_resolution_time :: "frame \<Rightarrow> error + frame" where
  "derive_resolution_time df =
     (if Txt ''resolution_time'' \<notin> set (labels df) then
        (case (columns_named df (Txt ''resolved_date''), columns_named df (Txt ''created_date'')) of
           ([], _) \<Rightarrow> Inl KeyError
         | (_, []) \<Rightarrow> Inl KeyError
         | ([resolved], [created]) \<Rightarrow>
             if list_all datetime_cell resolved \<and> list_all datetime_cell created
             then Inr (set_column df (Txt ''resolution_time'') (map2 elapsed_hours resolved created))
             else Inl TypeError
         | _ \<Rightarrow> Inl AttributeError)
      else Inr df)"

definition derive_bucket :: "frame \<Rightarrow> string \<Rightarrow> (int \<Rightarrow> string) \<Rightarrow> error + frame" where
  "derive_bucket df target fmt =
     (case columns_named df (Txt ''created_date'') of
        [] \<Rightarrow> Inl KeyError
      | [created] \<Rightarrow>
          if list_all datetime_cell created
          then Inr (set_column df (Txt target) (map (strftime_cell fmt) created))
          else Inl AttributeError
      | _ \<Rightarrow> Inl AttributeError)"

definition derive_is_overdue :: "frame \<Rightarrow> error + frame" where
  "derive_is_overdue df =
     (case columns_named df (Txt ''resolution_time'') of
        [] \<Rightarrow> Inl KeyError
      | [hours] \<Rightarrow>
          if list_all comparable hours
          then Inr (set_column df (Txt ''is_overdue'') (map (\<lambda>c. Bool (over_24 c)) hours))
          else Inl TypeError
      | _ \<Rightarrow> Inl ValueError)"

text \<open>Running one step after another; the first error ends the run, as an exception
  does.\<close>

definition and_then :: "error + 'a \<Rightarrow> ('a \<Rightarrow> error + 'b) \<Rightarrow> error + 'b" where
  "and_then r f = (case r of Inl e \<Rightarrow> Inl e | Inr x \<Rightarrow> f x)"

definition calculate_derived_fields :: "library \<Rightarrow> frame \<Rightarrow> error + frame" where
  "calculate_derived_fields lib df =
     and_then (derive_resolution_time df) (\<lambda>df1.
     and_then (derive_bucket df1 ''month_year'' (strftime lib ''%Y-%m'')) (\<lambda>df2.
     and_then (derive_bucket df2 ''week_year'' (strftime lib ''%Y-W%U'')) (\<lambda>df3.
     derive_is_overdue df3)))"

text \<open>The processor object: its two data attributes.\<close>

record processor =
  raw_data :: "frame option"
  processed_data :: "frame option"

text \<open>\<open>__init__\<close>: both attributes start as None.\<close>

definition new_processor :: processor where
  "new_processor = \<lparr>raw_data = None, processed_data = None\<rparr>"

text \<open>The body of the \<open>try\<close> block of \<open>preprocess_data\<close>: the four steps in
  order, on a copy of the raw table.\<close>

definition pipeline :: "library \<Rightarrow> frame \<Rightarrow> error + frame" where
  "pipeline lib raw =
     and_then (standardize_columns raw) (\<lambda>df1.
     and_then (Inr (add_missing_columns lib df1)) (\<lambda>df2.
     and_then (convert_date_columns lib df2) (\<lambda>df3.
     calculate_derived_fields lib df3)))"

text \<open>\<open>preprocess_data\<close>: every exception of the steps is caught and answered with
  False; \<open>processed_data\<close> is assigned only at the end of a run without error.\<close>

definition preprocess_data :: "library \<Rightarrow> processor \<Rightarrow> bool \<times> processor" where
  "preprocess_data lib self =
     (case raw_data self of
        None \<Rightarrow> (False, self)
      | Some raw \<Rightarrow>
          (case pipeline lib raw of
             Inl e \<Rightarrow> (False, self)
           | Inr df \<Rightarrow> (True, self\<lparr>processed_data := Some df\<rparr>)))"


section \<open>DataProcessor: loading files and the summary\<close>

text \<open>
  An uploaded file is its name and what \<open>pd.read_excel\<close> makes of it: a table, or
  nothing when reading raises (the exception is caught inside the loop and the file is
  skipped). \<open>pd.read_excel\<close> never gives two columns the same label (it renames a
  repeated header to \<open>name.1\<close>).
\<close>

record upload =
  name :: string
  sheet :: "frame option"

text \<open>\<open>df['source_file'] = file.name\<close>, the value repeated on every row.\<close>

definition tag_source :: "frame \<Rightarrow> string \<Rightarrow> frame" where
  "tag_source df file_name =
     set_column df (Txt ''source_file'') (replicate (nrows df) (Str file_name))"

text \<open>The loop of \<open>load_excel_files\<close>: the list \<open>all_data\<close> it builds.\<close>

fun load_all :: "upload list \<Rightarrow> frame list" where
  "load_all [] = []"
| "load_all (file # rest) =
     (case sheet file of
        None \<Rightarrow> load_all rest
      | Some df \<Rightarrow> tag_source df (name file) # load_all rest)"

text \<open>Order of first appearance, as pandas orders the union of the column labels.\<close>

definition first_seen :: "'a list \<Rightarrow> 'a list" where
  "first_seen xs = rev (remdups (rev xs))"

text \<open>The cells one table contributes to a column of the combined table: its own column,
  or missing values on each of its rows when it has none of that label.\<close>

definition column_or_nulls :: "frame \<Rightarrow> label \<Rightarrow> cell list" where
  "column_or_nulls df l =
     (case columns_named df l of
        [] \<Rightarrow> replicate (nrows df) Null
      | c # others \<Rightarrow> c)"

text \<open>\<open>pd.concat(dfs, ignore_index=True)\<close>: rows below one another, columns the union
  of the labels. An empty list is refused (ValueError). Tables with a repeated label cannot
  be aligned (InvalidIndexError); pandas accepts them only when all tables carry the very
  same labels, a case that tables read by \<open>pd.read_excel\<close> never produce and that is
  answered here with the same error.\<close>

definition concat_frames :: "frame list \<Rightarrow> error + frame" where
  "concat_frames dfs =
     (if dfs = [] then Inl ValueError
      else if \<not> list_all (\<lambda>df. distinct (labels df)) dfs then Inl InvalidIndexError
      else Inr \<lparr>nrows = sum_list (map nrows dfs),
                cols = map (\<lambda>l. (l, concat (map (\<lambda>df. column_or_nulls df l) dfs)))
                           (first_seen (concat (map labels dfs)))\<rparr>)"

text \<open>\<open>load_excel_files\<close>: the answer and the processor afterwards. \<open>pd.concat\<close>
  stands outside the \<open>try\<close>, so an error of it leaves the method as an exception.\<close>

definition load_excel_files :: "processor \<Rightarrow> upload list \<Rightarrow> error + bool \<times> processor" where
  "load_excel_files self uploaded_files =
     (let all_data = load_all uploaded_files in
      if all_data \<noteq> [] then
        (case concat_frames all_data of
           Inl e \<Rightarrow> Inl e
         | Inr combined \<Rightarrow> Inr (True, self\<lparr>raw_data := Some combined\<rparr>))
      else Inr (False, self))"

text \<open>\<open>get_data_summary\<close>, the two counting entries of the dictionary it returns:
  \<open>total_incidents\<close> is \<open>len(processed_data)\<close> and \<open>overdue_incidents\<close> is
  \<open>processed_data['is_overdue'].sum()\<close>, the number of true cells. The other three
  entries (mean resolution time, number of teams, date range) are reductions of pandas that
  no property below speaks about; they are left out. Without processed data the
  method returns the empty dictionary. Should several columns carry the label
  \<open>is_overdue\<close>, the pipeline has given all of them the same cells, and the count of
  the first is reported.\<close>

record summary =
  total_incidents :: nat
  overdue_incidents :: nat

definition get_data_summary :: "processor \<Rightarrow> error + summary option" where
  "get_data_summary self =
     (case processed_data self of
        None \<Rightarrow> Inr None
      | Some df \<Rightarrow>
          (case columns_named df (Txt ''is_overdue'') of
             [] \<Rightarrow> Inl KeyError
           | flags # others \<Rightarrow>
               Inr (Some \<lparr>total_incidents = nrows df,
                          overdue_incidents = length (filter (\<lambda>c. c = Bool True) flags)\<rparr>)))"


section \<open>The canonical dataset and the reductions of pandas\<close>

text \<open>
  The analyzers read the processed table by field name, one record at a time. For them the
  table is modelled as the sequence of its rows, each a record of the thirteen fields the
  pipeline leaves in it. A text field holds text or a missing value, a date a time stamp
  or NaT, \<open>resolution_time\<close> a number or NaN; \<open>incident_id\<close> is any cell, of which
  only being missing is ever asked. An absent table (Python's \<open>None\<close>) is \<open>None\<close>,
  and \<open>data.empty\<close> is the empty sequence. A table whose text columns pandas holds
  as numbers, on which it refuses the \<open>.str\<close> accessor, is not a value of this type.
\<close>

record incident =
  incident_id :: cell
  title :: "string option"
  category :: "string option"
  priority :: "string option"
  status :: "string option"
  created_date :: "int option"
  resolved_date :: "int option"
  assigned_team :: "string option"
  resolution_time :: "real option"
  month_year :: "string option"
  week_year :: "string option"
  is_overdue :: bool
  source_file :: string

text \<open>\<open>groupby(key)\<close> with its defaults: rows with a missing key are dropped, the
  groups come in ascending order of their keys, and each group keeps its rows in table
  order.\<close>

definition group_keys :: "('r \<Rightarrow> 'k option) \<Rightarrow> 'r list \<Rightarrow> ('k :: linorder) list" where
  "group_keys key rows = sort (remdups (List.map_filter key rows))"

definition group_rows :: "('r \<Rightarrow> 'k option) \<Rightarrow> 'r list \<Rightarrow> 'k \<Rightarrow> 'r list" where
  "group_rows key rows k = filter (\<lambda>r. key r = Some k) rows"

text \<open>\<open>groupby(key).size()\<close>.\<close>

definition group_sizes :: "('r \<Rightarrow> 'k option) \<Rightarrow> 'r list \<Rightarrow> (('k :: linorder) \<times> nat) list" where
  "group_sizes key rows = map (\<lambda>k. (k, length (group_rows key rows k))) (group_keys key rows)"

text \<open>The aggregation \<open>'count'\<close> counts the values that are not missing; \<open>'mean'\<close>
  averages them and is NaN when there is none; \<open>'sum'\<close> of a column of truth values
  counts the true ones.\<close>

definition count_cells :: "cell list \<Rightarrow> nat" where
  "count_cells cs = length (filter (\<lambda>c. c \<noteq> Null) cs)"

definition mean :: "real option list \<Rightarrow> real option" where
  "mean vs =
     (let xs = List.map_filter id vs
      in if xs = [] then None else Some (sum_list xs / real (length xs)))"

definition count_true :: "bool list \<Rightarrow> nat" where
  "count_true bs = length (filter id bs)"

text \<open>\<open>Series.mode()\<close>: the values that occur most often among those not missing, in
  ascending order.\<close>

definition mode_values :: "('a :: linorder) option list \<Rightarrow> 'a list" where
  "mode_values vs =
     (let xs = List.map_filter id vs
      in sort (filter (\<lambda>x. list_all (\<lambda>y. count_list xs y \<le> count_list xs x) xs) (remdups xs)))"

text \<open>\<open>Series.str.contains(pat, case=False, na=False)\<close> at one cell, for a pattern
  without regular expression operators: \<open>pat\<close> occurs in the text, letter case
  ignored; a missing value gives False.\<close>

fun starts_with :: "string \<Rightarrow> string \<Rightarrow> bool" where
  "starts_with [] s = True"
| "starts_with (p # ps) [] = False"
| "starts_with (p # ps) (c # cs) = (p = c \<and> starts_with ps cs)"

fun occurs_in :: "string \<Rightarrow> string \<Rightarrow> bool" where
  "occurs_in pat [] = (pat = [])"
| "occurs_in pat (c # cs) = (starts_with pat (c # cs) \<or> occurs_in pat cs)"

definition str_contains :: "string \<Rightarrow> string option \<Rightarrow> bool" where
  "str_contains pat v =
     (case v of None \<Rightarrow> False | Some s \<Rightarrow> occurs_in (lower pat) (lower s))"

section \<open>RecurringIssuesAnalyzer\<close>

record recurring_issue =
  issue_category :: string
  issue_title :: string
  frequency :: nat
  issue_resolution_time :: "real option"
  issue_assigned_team :: string

definition issue_key :: "incident \<Rightarrow> (string \<times> string) option" where
  "issue_key r =
     (case (category r, title r) of
        (Some c, Some t) \<Rightarrow> Some (c, t)
      | _ \<Rightarrow> None)"

text \<open>The lambda given for \<open>assigned_team\<close>:
  \<open>x.mode().iloc[0] if not x.empty else 'Unknown'\<close>. When every team of the group is
  missing the mode is empty and \<open>iloc[0]\<close> raises IndexError.\<close>

definition most_common_team :: "string option list \<Rightarrow> error + string" where
  "most_common_team x =
     (if x \<noteq> [] then
        (case mode_values x of
           [] \<Rightarrow> Inl IndexError
         | m # others \<Rightarrow> Inr m)
      else Inr ''Unknown'')"

definition aggregate_issue :: "incident list \<Rightarrow> string \<times> string \<Rightarrow> error + recurring_issue" where
  "aggregate_issue ds k =
     (let g = group_rows issue_key ds k in
      case most_common_team (map assigned_team g) of
        Inl e \<Rightarrow> Inl e
      | Inr team \<Rightarrow>
          Inr \<lparr>issue_category = fst k,
               issue_title = snd k,
               frequency = count_cells (map incident_id g),
               issue_resolution_time = mean (map resolution_time g),
               issue_assigned_team = team\<rparr>)"

fun all_or_error :: "(error + 'a) list \<Rightarrow> error + 'a list" where
  "all_or_error [] = Inr []"
| "all_or_error (Inl e # rest) = Inl e"
| "all_or_error (Inr x # rest) =
     (case all_or_error rest of Inl e \<Rightarrow> Inl e | Inr xs \<Rightarrow> Inr (x # xs))"

text \<open>\<open>sort_values('frequency', ascending=False)\<close> is a parameter of the model.
  pandas sorts with numpy's default algorithm, which is not stable: the rows come out in
  descending order of frequency, and the order among rows of equal frequency is whatever
  the algorithm of the platform leaves. What is known of the result is that it holds the
  same rows, each as often as before, in descending order of frequency.\<close>

definition descending_frequency :: "(recurring_issue list \<Rightarrow> recurring_issue list) \<Rightarrow> bool" where
  "descending_frequency sort_values =
     (\<forall>rows. (\<forall>x. count_list (sort_values rows) x = count_list rows x) \<and>
             sorted_wrt (\<lambda>a b. frequency b \<le> frequency a) (sort_values rows))"

text \<open>\<open>head(n)\<close>: the first \<open>n\<close> rows, or for negative \<open>n\<close> all but the last
  \<open>-n\<close>.\<close>

definition head :: "int \<Rightarrow> 'a list \<Rightarrow> 'a list" where
  "head n xs = (if 0 \<le> n then take (nat n) xs else take (length xs - nat (- n)) xs)"

text \<open>\<open>get_top_recurring_issues\<close>: any exception inside the \<open>try\<close> gives None.\<close>

definition get_top_recurring_issues ::
  "(recurring_issue list \<Rightarrow> recurring_issue list) \<Rightarrow> incident list option \<Rightarrow> int \<Rightarrow>
     recurring_issue list option"
where
  "get_top_recurring_issues sort_values data top_n =
     (case data of
        None \<Rightarrow> None
      | Some ds \<Rightarrow>
          if ds = [] then None
          else
            (case all_or_error (map (aggregate_issue ds) (group_keys issue_key ds)) of
               Inl e \<Rightarrow> None
             | Inr rows \<Rightarrow> Some (head top_n (sort_values rows))))"

section \<open>SLAAnalyzer\<close>

definition sla_thresholds :: "(string \<times> real) list" where
  "sla_thresholds = [(''Critical'', 4), (''High'', 8), (''Medium'', 24), (''Low'', 72)]"

record sla_row =
  Priority :: string
  Total_Incidents :: nat
  SLA_Met :: nat
  SLA_Percentage :: real
  Avg_Resolution_Time :: "real option"
  SLA_Threshold :: real

text \<open>\<open>resolution_time <= threshold\<close>; NaN compares false.\<close>

definition meets :: "real \<Rightarrow> real option \<Rightarrow> bool" where
  "meets threshold v = (case v of None \<Rightarrow> False | Some x \<Rightarrow> x \<le> threshold)"

text \<open>The body of the loop over the thresholds: the rows it appends to
  \<open>sla_analysis\<close>.\<close>

definition sla_entry :: "incident list \<Rightarrow> string \<times> real \<Rightarrow> sla_row list" where
  "sla_entry ds pt =
     (let priority_data = filter (\<lambda>r. str_contains (fst pt) (priority r)) ds in
      if length priority_data > 0 then
        (let total_incidents = length priority_data;
             met_sla = length (filter (\<lambda>r. meets (snd pt) (resolution_time r)) priority_data)
         in [\<lparr>Priority = fst pt,
               Total_Incidents = total_incidents,
               SLA_Met = met_sla,
               SLA_Percentage = real met_sla / real total_incidents * 100,
               Avg_Resolution_Time = mean (map resolution_time priority_data),
               SLA_Threshold = snd pt\<rparr>])
      else [])"

definition analyze_sla_performance :: "incident list option \<Rightarrow> sla_row list option" where
  "analyze_sla_performance data =
     (case data of
        None \<Rightarrow> None
      | Some ds \<Rightarrow> if ds = [] then None else Some (concat (map (sla_entry ds) sla_thresholds)))"


section \<open>TeamAnalyzer\<close>

text \<open>A quotient of two counts as pandas computes it in floating point: a zero divisor
  gives NaN for \<open>0/0\<close> and infinity otherwise, never an error.\<close>

datatype quotient = Finite real | Infinite | NaN

definition percent_of :: "nat \<Rightarrow> nat \<Rightarrow> quotient" where
  "percent_of part whole =
     (if whole = 0 then (if part = 0 then NaN else Infinite)
      else Finite (real part / real whole * 100))"

record team_trend =
  trend_team :: string
  trend_month :: string
  trend_total_incidents :: nat
  trend_resolution_time :: "real option"
  trend_overdue_incidents :: nat
  overdue_percentage :: quotient

definition team_month_key :: "incident \<Rightarrow> (string \<times> string) option" where
  "team_month_key r =
     (case (assigned_team r, month_year r) of
        (Some t, Some m) \<Rightarrow> Some (t, m)
      | _ \<Rightarrow> None)"

definition team_trend_row :: "incident list \<Rightarrow> string \<times> string \<Rightarrow> team_trend" where
  "team_trend_row ds k =
     (let g = group_rows team_month_key ds k;
          total = count_cells (map incident_id g);
          overdue = count_true (map is_overdue g)
      in \<lparr>trend_team = fst k,
           trend_month = snd k,
           trend_total_incidents = total,
           trend_resolution_time = mean (map resolution_time g),
           trend_overdue_incidents = overdue,
           overdue_percentage = percent_of overdue total\<rparr>)"

definition analyze_team_trends :: "incident list option \<Rightarrow> team_trend list option" where
  "analyze_team_trends data =
     (case data of
        None \<Rightarrow> None
      | Some ds \<Rightarrow>
          if ds = [] then None
          else Some (map (team_trend_row ds) (group_keys team_month_key ds)))"

record team_summary =
  summary_team :: string
  summary_total_incidents :: nat
  summary_resolution_time :: "real option"
  summary_overdue_incidents :: nat

definition team_summary_row :: "incident list \<Rightarrow> string \<Rightarrow> team_summary" where
  "team_summary_row ds k =
     (let g = group_rows assigned_team ds k
      in \<lparr>summary_team = k,
           summary_total_incidents = count_cells (map incident_id g),
           summary_resolution_time = mean (map resolution_time g),
           summary_overdue_incidents = count_true (map is_overdue g)\<rparr>)"

definition get_team_performance_summary :: "incident list option \<Rightarrow> team_summary list option" where
  "get_team_performance_summary data =
     (case data of
        None \<Rightarrow> None
      | Some ds \<Rightarrow>
          if ds = [] then None
          else Some (map (team_summary_row ds) (group_keys assigned_team ds)))"

section \<open>TechDebtAnalyzer\<close>

definition tech_debt_keywords :: "string list" where
  "tech_debt_keywords =
     [''legacy'', ''outdated'', ''deprecated'', ''technical debt'', ''refactor'',
      ''workaround'', ''hack'', ''temporary fix'', ''hotfix'', ''patch'']"

text \<open>The mask of \<open>identify_tech_debt_incidents\<close>: the pattern is the keywords joined
  by \<open>|\<close>, so a title matches when one of them occurs in it.\<close>

definition tech_debt_mask :: "incident \<Rightarrow> bool" where
  "tech_debt_mask r = list_ex (\<lambda>k. str_contains k (title r)) tech_debt_keywords"

text \<open>An absent or empty table gives the empty table \<open>pd.DataFrame()\<close>.\<close>

definition identify_tech_debt_incidents :: "incident list option \<Rightarrow> incident list" where
  "identify_tech_debt_incidents data =
     (case data of
        None \<Rightarrow> []
      | Some ds \<Rightarrow> if ds = [] then [] else filter tech_debt_mask ds)"

record debt_indicators =
  total_debt_percentage :: real
  debt_by_team :: "(string \<times> nat) list"
  debt_trend :: "(string \<times> nat) list"
  debt_incidents :: "incident list"

text \<open>\<open>calculate_tech_debt_indicators\<close> has no guard of its own: after the call of
  \<open>identify_tech_debt_incidents\<close> it evaluates \<open>len(self.data)\<close>, which raises
  TypeError on \<open>None\<close>.\<close>

definition calculate_tech_debt_indicators :: "incident list option \<Rightarrow> error + debt_indicators" where
  "calculate_tech_debt_indicators data =
     (let tech_debt_incidents = identify_tech_debt_incidents data in
      case data of
        None \<Rightarrow> Inl TypeError
      | Some ds \<Rightarrow>
          (let total_incidents = length ds;
               debt = length tech_debt_incidents
           in Inr \<lparr>total_debt_percentage =
                      (if total_incidents > 0 then real debt / real total_incidents * 100 else 0),
                    debt_by_team =
                      (if tech_debt_incidents \<noteq> [] then group_sizes assigned_team tech_debt_incidents
                       else []),
                    debt_trend =
                      (if tech_debt_incidents \<noteq> [] then group_sizes month_year tech_debt_incidents
                       else []),
                    debt_incidents = tech_debt_incidents\<rparr>))"

section \<open>TrendAnalyzer\<close>

definition get_monthly_trends :: "incident list option \<Rightarrow> (string \<times> nat) list option" where
  "get_monthly_trends data =
     (case data of
        None \<Rightarrow> None
      | Some ds \<Rightarrow> if ds = [] then None else Some (group_sizes month_year ds))"


section \<open>Notions used to state the properties\<close>

fun is_text :: "label \<Rightarrow> bool" where
  "is_text (Txt s) = True"
| "is_text (Nbr n) = False"

text \<open>The canonical field names: the keys of the synonym table.\<close>

definition canonical_fields :: "string list" where
  "canonical_fields = map fst get_column_mappings"

definition text_fields :: "string list" where
  "text_fields = [''title'', ''category'', ''priority'', ''status'', ''assigned_team'']"

text \<open>A table is well formed when every column has as many cells as the table has rows,
  as every pandas table does.\<close>

definition well_formed :: "frame \<Rightarrow> bool" where
  "well_formed df = list_all (\<lambda>kc. length (snd kc) = nrows df) (cols df)"

text \<open>\<open>pd.to_datetime\<close> answers a column with a column of the same length.\<close>

definition length_preserving :: "library \<Rightarrow> bool" where
  "length_preserving lib =
     (\<forall>cells ts. to_datetime lib cells = Inr ts \<longrightarrow> length ts = length cells)"

text \<open>The uploaded files that parse, each with its name, in upload order.\<close>

definition parsed :: "upload list \<Rightarrow> (string \<times> frame) list" where
  "parsed files = List.map_filter (\<lambda>f. map_option (\<lambda>df. (name f, df)) (sheet f)) files"

text \<open>Containing a label as a substring, letter case ignored, said directly.\<close>

definition contains_ignoring_case :: "string \<Rightarrow> string option \<Rightarrow> bool" where
  "contains_ignoring_case pat v =
     (\<exists>s before after. v = Some s \<and> lower s = before @ lower pat @ after)"

text \<open>The records of one group of the recurring issues analysis, and the number of them
  that carry an incident id.\<close>

definition issue_group :: "incident list \<Rightarrow> string \<times> string \<Rightarrow> incident list" where
  "issue_group ds k = filter (\<lambda>r. category r = Some (fst k) \<and> title r = Some (snd k)) ds"

definition issue_frequency :: "incident list \<Rightarrow> string \<times> string \<Rightarrow> nat" where
  "issue_frequency ds k = length (filter (\<lambda>r. incident_id r \<noteq> Null) (issue_group ds k))"

text \<open>A value is most frequent in a column when it occurs there and no value occurs more
  often.\<close>

definition most_frequent :: "'a \<Rightarrow> 'a option list \<Rightarrow> bool" where
  "most_frequent t vs =
     (Some t \<in> set vs \<and> (\<forall>u. count_list vs (Some u) \<le> count_list vs (Some t)))"

text \<open>The tie-break in the words of the specification: of the most frequent values, the
  one met first in row order.\<close>

definition first_mode_encountered :: "'a option list \<Rightarrow> 'a option" where
  "first_mode_encountered vs =
     (let xs = List.map_filter id vs
      in find (\<lambda>x. list_all (\<lambda>y. count_list xs y \<le> count_list xs x) xs) xs)"

section \<open>Example inputs\<close>

definition canonical_table :: frame where
  "canonical_table =
     \<lparr>nrows = 1,
      cols = [(Txt ''incident_id'', [Str ''INC001'']), (Txt ''title'', [Str ''Disk full'']),
              (Txt ''category'', [Str ''Hardware'']), (Txt ''priority'', [Str ''High'']),
              (Txt ''status'', [Str ''Closed'']), (Txt ''created_date'', [Str ''2024-01-01'']),
              (Txt ''resolved_date'', [Str ''2024-01-02'']), (Txt ''assigned_team'', [Str ''Ops'']),
              (Txt ''resolution_time'', [Num 24])]\<rparr>"

definition two_titles :: frame where
  "two_titles =
     \<lparr>nrows = 1, cols = [(Txt ''summary'', [Str ''A'']), (Txt ''description'', [Str ''B''])]\<rparr>"

text \<open>A sheet whose first header cell holds the number 2024.\<close>

definition numbered_header :: frame where
  "numbered_header =
     \<lparr>nrows = 1, cols = [(Nbr 2024, [Num 3]), (Txt ''summary'', [Str ''A''])]\<rparr>"

definition three_columns :: frame where
  "three_columns =
     \<lparr>nrows = 1,
      cols = [(Txt ''id'', [Num 7]), (Txt ''Summary'', [Str ''A'']), (Txt ''description'', [Str ''B''])]\<rparr>"

text \<open>A library to run the examples with: the clock shows the epoch, \<open>to_datetime\<close>
  keeps a time stamp and answers NaT for every other cell, and \<open>strftime\<close> names the
  month and the week of the first days of January 1970, in which all time stamps of the
  examples lie.\<close>

fun timestamp_of :: "cell \<Rightarrow> int option" where
  "timestamp_of (Time t) = Some t"
| "timestamp_of c = None"

definition example_library :: library where
  "example_library =
     \<lparr>now = (\<lambda>col. 0),
      to_datetime = (\<lambda>cells. Inr (map timestamp_of cells)),
      strftime = (\<lambda>fmt t. if fmt = ''%Y-%m'' then ''1970-01'' else ''1970-W00'')\<rparr>"

text \<open>A sheet with a title column whose second cell is blank.\<close>

definition blank_title :: frame where
  "blank_title =
     \<lparr>nrows = 2,
      cols = [(Txt ''title'', [Str ''Disk full'', Null]),
              (Txt ''source_file'', [Str ''a.xlsx'', Str ''a.xlsx''])]\<rparr>"

definition blank_title_filled :: frame where
  "blank_title_filled =
     \<lparr>nrows = 2,
      cols = [(Txt ''title'', [Str ''Disk full'', Null]),
              (Txt ''source_file'', [Str ''a.xlsx'', Str ''a.xlsx'']),
              (Txt ''incident_id'', [Num 1, Num 2]),
              (Txt ''category'', [Str ''Unknown'', Str ''Unknown'']),
              (Txt ''priority'', [Str ''Unknown'', Str ''Unknown'']),
              (Txt ''status'', [Str ''Unknown'', Str ''Unknown'']),
              (Txt ''created_date'', [Time 0, Time 0]),
              (Txt ''resolved_date'', [Time 0, Time 0]),
              (Txt ''assigned_team'', [Str ''Unknown'', Str ''Unknown''])]\<rparr>"

definition blank_title_processed :: frame where
  "blank_title_processed =
     \<lparr>nrows = 2,
      cols = [(Txt ''title'', [Str ''Disk full'', Null]),
              (Txt ''source_file'', [Str ''a.xlsx'', Str ''a.xlsx'']),
              (Txt ''incident_id'', [Num 1, Num 2]),
              (Txt ''category'', [Str ''Unknown'', Str ''Unknown'']),
              (Txt ''priority'', [Str ''Unknown'', Str ''Unknown'']),
              (Txt ''status'', [Str ''Unknown'', Str ''Unknown'']),
              (Txt ''created_date'', [Time 0, Time 0]),
              (Txt ''resolved_date'', [Time 0, Time 0]),
              (Txt ''assigned_team'', [Str ''Unknown'', Str ''Unknown'']),
              (Txt ''resolution_time'', [Num 0, Num 0]),
              (Txt ''month_year'', [Str ''1970-01'', Str ''1970-01'']),
              (Txt ''week_year'', [Str ''1970-W00'', Str ''1970-W00'']),
              (Txt ''is_overdue'', [Bool False, Bool False])]\<rparr>"

text \<open>An export of a ticketing tool: aliases for six fields, no category and no status;
  the first ticket was closed thirty hours after it was created, the second is open.\<close>

definition ticket_export :: frame where
  "ticket_export =
     \<lparr>nrows = 2,
      cols = [(Txt ''Ticket_ID'', [Str ''T-1'', Str ''T-2'']),
              (Txt ''Summary'', [Str ''Database outage'', Str ''Login failure'']),
              (Txt ''Severity'', [Str ''Critical'', Str ''Low'']),
              (Txt ''Created'', [Time 0, Time 0]),
              (Txt ''Closed_Date'', [Time 108000000000000, Null]),
              (Txt ''Team'', [Str ''DB Team'', Null]),
              (Txt ''source_file'', [Str ''export.xlsx'', Str ''export.xlsx''])]\<rparr>"

definition ticket_mapped :: frame where
  "ticket_mapped =
     \<lparr>nrows = 2,
      cols = [(Txt ''incident_id'', [Str ''T-1'', Str ''T-2'']),
              (Txt ''title'', [Str ''Database outage'', Str ''Login failure'']),
              (Txt ''priority'', [Str ''Critical'', Str ''Low'']),
              (Txt ''created_date'', [Time 0, Time 0]),
              (Txt ''resolved_date'', [Time 108000000000000, Null]),
              (Txt ''assigned_team'', [Str ''DB Team'', Null]),
              (Txt ''source_file'', [Str ''export.xlsx'', Str ''export.xlsx''])]\<rparr>"

definition ticket_filled :: frame where
  "ticket_filled =
     \<lparr>nrows = 2,
      cols = [(Txt ''incident_id'', [Str ''T-1'', Str ''T-2'']),
              (Txt ''title'', [Str ''Database outage'', Str ''Login failure'']),
              (Txt ''priority'', [Str ''Critical'', Str ''Low'']),
              (Txt ''created_date'', [Time 0, Time 0]),
              (Txt ''resolved_date'', [Time 108000000000000, Null]),
              (Txt ''assigned_team'', [Str ''DB Team'', Null]),
              (Txt ''source_file'', [Str ''export.xlsx'', Str ''export.xlsx'']),
              (Txt ''category'', [Str ''Unknown'', Str ''Unknown'']),
              (Txt ''status'', [Str ''Unknown'', Str ''Unknown''])]\<rparr>"

definition ticket_processed :: frame where
  "ticket_processed =
     \<lparr>nrows = 2,
      cols = [(Txt ''incident_id'', [Str ''T-1'', Str ''T-2'']),
              (Txt ''title'', [Str ''Database outage'', Str ''Login failure'']),
              (Txt ''priority'', [Str ''Critical'', Str ''Low'']),
              (Txt ''created_date'', [Time 0, Time 0]),
              (Txt ''resolved_date'', [Time 108000000000000, Null]),
              (Txt ''assigned_team'', [Str ''DB Team'', Null]),
              (Txt ''source_file'', [Str ''export.xlsx'', Str ''export.xlsx'']),
              (Txt ''category'', [Str ''Unknown'', Str ''Unknown'']),
              (Txt ''status'', [Str ''Unknown'', Str ''Unknown'']),
              (Txt ''resolution_time'', [Num 30, Null]),
              (Txt ''month_year'', [Str ''1970-01'', Str ''1970-01'']),
              (Txt ''week_year'', [Str ''1970-W00'', Str ''1970-W00'']),
              (Txt ''is_overdue'', [Bool True, Bool False])]\<rparr>"

text \<open>The combined table of two files: \<open>a.xlsx\<close> supplies a resolution time,
  \<open>b.xlsx\<close> has no such column, so its row holds a missing value there. Both rows have
  both dates; the second ticket was closed six hours after it was created.\<close>

definition partial_hours :: frame where
  "partial_hours =
     \<lparr>nrows = 2,
      cols = [(Txt ''created_date'', [Time 0, Time 0]),
              (Txt ''resolved_date'', [Time 18000000000000, Time 21600000000000]),
              (Txt ''resolution_time'', [Num 5, Null]),
              (Txt ''source_file'', [Str ''a.xlsx'', Str ''b.xlsx''])]\<rparr>"

definition partial_hours_filled :: frame where
  "partial_hours_filled =
     \<lparr>nrows = 2,
      cols = [(Txt ''created_date'', [Time 0, Time 0]),
              (Txt ''resolved_date'', [Time 18000000000000, Time 21600000000000]),
              (Txt ''resolution_time'', [Num 5, Null]),
              (Txt ''source_file'', [Str ''a.xlsx'', Str ''b.xlsx'']),
              (Txt ''incident_id'', [Num 1, Num 2]),
              (Txt ''title'', [Str ''Unknown'', Str ''Unknown'']),
              (Txt ''category'', [Str ''Unknown'', Str ''Unknown'']),
              (Txt ''priority'', [Str ''Unknown'', Str ''Unknown'']),
              (Txt ''status'', [Str ''Unknown'', Str ''Unknown'']),
              (Txt ''assigned_team'', [Str ''Unknown'', Str ''Unknown''])]\<rparr>"

definition partial_hours_processed :: frame where
  "partial_hours_processed =
     \<lparr>nrows = 2,
      cols = [(Txt ''created_date'', [Time 0, Time 0]),
              (Txt ''resolved_date'', [Time 18000000000000, Time 21600000000000]),
              (Txt ''resolution_time'', [Num 5, Null]),
              (Txt ''source_file'', [Str ''a.xlsx'', Str ''b.xlsx'']),
              (Txt ''incident_id'', [Num 1, Num 2]),
              (Txt ''title'', [Str ''Unknown'', Str ''Unknown'']),
              (Txt ''category'', [Str ''Unknown'', Str ''Unknown'']),
              (Txt ''priority'', [Str ''Unknown'', Str ''Unknown'']),
              (Txt ''status'', [Str ''Unknown'', Str ''Unknown'']),
              (Txt ''assigned_team'', [Str ''Unknown'', Str ''Unknown'']),
              (Txt ''month_year'', [Str ''1970-01'', Str ''1970-01'']),
              (Txt ''week_year'', [Str ''1970-W00'', Str ''1970-W00'']),
              (Txt ''is_overdue'', [Bool False, Bool False])]\<rparr>"

text \<open>Three uploads, the second of which cannot be read.\<close>

definition sheet_a :: frame where
  "sheet_a = \<lparr>nrows = 1, cols = [(Txt ''id'', [Num 1]), (Txt ''summary'', [Str ''Disk full''])]\<rparr>"

definition sheet_b :: frame where
  "sheet_b =
     \<lparr>nrows = 2, cols = [(Txt ''id'', [Num 2, Num 3]), (Txt ''team'', [Str ''Ops'', Str ''Net''])]\<rparr>"

definition example_uploads :: "upload list" where
  "example_uploads =
     [\<lparr>name = ''a.xlsx'', sheet = Some sheet_a\<rparr>,
      \<lparr>name = ''broken.xlsx'', sheet = None\<rparr>,
      \<lparr>name = ''b.xlsx'', sheet = Some sheet_b\<rparr>]"

text \<open>Records of the canonical dataset: one critical incident resolved after five
  hours, one incident of January 2024, and one whose creation date could not be read.\<close>

definition critical_five :: incident where
  "critical_five =
     \<lparr>incident_id = Num 1, title = Some ''Unknown'', category = Some ''Unknown'',
      priority = Some ''Critical'', status = Some ''Unknown'',
      created_date = Some 0, resolved_date = Some 18000000000000,
      assigned_team = Some ''Unknown'', resolution_time = Some 5,
      month_year = Some ''1970-01'', week_year = Some ''1970-W00'',
      is_overdue = False, source_file = ''b.xlsx''\<rparr>"

definition dated :: incident where
  "dated =
     \<lparr>incident_id = Str ''INC001'', title = Some ''Database outage'', category = Some ''Database'',
      priority = Some ''High'', status = Some ''Closed'',
      created_date = Some 1704067200000000000, resolved_date = Some 1704153600000000000,
      assigned_team = Some ''DB Team'', resolution_time = Some 24,
      month_year = Some ''2024-01'', week_year = Some ''2024-W00'',
      is_overdue = False, source_file = ''a.xlsx''\<rparr>"

definition undated :: incident where
  "undated =
     \<lparr>incident_id = Str ''INC002'', title = Some ''Apply hotfix for legacy module'',
      category = Some ''Application'', priority = Some ''Low'', status = Some ''Open'',
      created_date = None, resolved_date = None,
      assigned_team = Some ''Ops'', resolution_time = None,
      month_year = None, week_year = None,
      is_overdue = False, source_file = ''a.xlsx''\<rparr>"

text \<open>Records for the recurring issues analysis, built from category, title, team and
  resolution time.\<close>

definition issue :: "string \<Rightarrow> string \<Rightarrow> string \<Rightarrow> real \<Rightarrow> incident" where
  "issue c t team hours =
     \<lparr>incident_id = Str ''INC'', title = Some t, category = Some c,
      priority = Some ''High'', status = Some ''Closed'',
      created_date = Some 0, resolved_date = Some 0,
      assigned_team = Some team, resolution_time = Some hours,
      month_year = Some ''1970-01'', week_year = Some ''1970-W00'',
      is_overdue = False, source_file = ''a.xlsx''\<rparr>"

text \<open>A sort to run the examples with: descending by frequency, rows of equal frequency
  in the order in which they come. No example has two rows of equal frequency.\<close>

definition example_sort_values :: "recurring_issue list \<Rightarrow> recurring_issue list" where
  "example_sort_values rows = sort_key (\<lambda>r. - int (frequency r)) rows"

definition tied_teams :: "incident list" where
  "tied_teams =
     [issue ''Network'' ''Link down'' ''Zeta'' 2, issue ''Network'' ''Link down'' ''Alpha'' 4]"

definition scenario_A :: "incident list" where
  "scenario_A =
     [issue ''Database'' ''Database outage'' ''DB Team'' 2,
      issue ''Database'' ''Login failure'' ''Ops'' 1,
      issue ''Database'' ''Database outage'' ''DB Team'' 6]"


section \<open>Schema mapping: properties\<close>

text \<open>Facts of the synonym table, each found by evaluating it.\<close>

lemma aliases_lowered_aux:
  "map (\<lambda>p. map lower (snd p)) get_column_mappings = map snd get_column_mappings"
  by code_simp

lemma aliases_disjoint_aux:
  "list_all (\<lambda>p. list_all (\<lambda>q. p = q \<or> list_all (\<lambda>a. a \<notin> set (snd q)) (snd p)) get_column_mappings) get_column_mappings"
  by code_simp

lemma canonical_own_alias_aux:
  "list_all (\<lambda>p. list_all (\<lambda>q. fst p = fst q \<or> fst p \<notin> set (snd q)) get_column_mappings) get_column_mappings"
  by code_simp

lemma canonical_first_alias_aux:
  "list_all (\<lambda>p. fst p \<in> set (snd p)) get_column_mappings"
  by code_simp

lemma aliases_lowered:
  assumes "(f, vs) \<in> set get_column_mappings"
  shows "map lower vs = vs"
proof -
  have "\<forall>p \<in> set get_column_mappings. map lower (snd p) = snd p"
    using aliases_lowered_aux by (simp only: map_eq_conv)
  with assms show ?thesis by fastforce
qed

lemma matches_alias:
  assumes "(f, vs) \<in> set get_column_mappings"
  shows "matches vs c \<longleftrightarrow> lower c \<in> set vs"
  by (simp add: matches_def aliases_lowered [OF assms] del: set_map)

lemma aliases_disjoint:
  assumes "(f, vs) \<in> set get_column_mappings" "(f', vs') \<in> set get_column_mappings"
    and "matches vs c" "matches vs' c"
  shows "f = f' \<and> vs = vs'"
proof -
  have "lower c \<in> set vs" "lower c \<in> set vs'"
    using assms by (simp_all add: matches_alias)
  moreover have "(f, vs) = (f', vs') \<or> (\<forall>a \<in> set vs. a \<notin> set vs')"
    using aliases_disjoint_aux assms(1,2) unfolding list_all_iff by fastforce
  ultimately show ?thesis by auto
qed

lemma canonical_matches_own:
  assumes "(c, ws) \<in> set get_column_mappings" "(f, vs) \<in> set get_column_mappings"
    and "matches vs c"
  shows "f = c"
proof -
  have "c \<in> set ws"
    using canonical_first_alias_aux assms(1) by (auto simp: list_all_iff)
  then have "lower c = c"
    using aliases_lowered [OF assms(1)] map_eq_conv [of lower ws id] by simp
  then have "c \<in> set vs"
    using assms(2,3) by (simp add: matches_alias)
  moreover have "c = f \<or> c \<notin> set vs"
    using canonical_own_alias_aux assms(1,2) unfolding list_all_iff by fastforce
  ultimately show ?thesis by auto
qed

lemma first_match_text:
  "list_all is_text columns \<Longrightarrow> \<exists>r. first_match vs columns = Inr r"
  by (induction vs columns rule: first_match.induct) auto

lemma first_match_SomeD:
  "first_match vs columns = Inr (Some l) \<Longrightarrow>
     \<exists>c. l = Txt c \<and> matches vs c \<and> l \<in> set columns"
  by (induction vs columns rule: first_match.induct) (auto split: if_splits)

lemma first_match_first:
  assumes "\<forall>l \<in> set pre. \<exists>d. l = Txt d \<and> \<not> matches vs d" and "matches vs c"
  shows "first_match vs (pre @ Txt c # post) = Inr (Some (Txt c))"
  using assms by (induction pre) auto

lemma collect_renames_text:
  "list_all is_text columns \<Longrightarrow> \<exists>d. collect_renames table columns m = Inr d"
proof (induction table arbitrary: m)
  case Nil
  then show ?case by simp
next
  case (Cons p table)
  obtain f vs where p: "p = (f, vs)" by (cases p)
  from first_match_text [OF Cons.prems] obtain r where "first_match vs columns = Inr r" by blast
  with Cons show ?case by (cases r) (auto simp: p)
qed

lemma collect_renames_SomeD:
  "collect_renames table columns m = Inr d \<Longrightarrow> d l = Some f \<Longrightarrow>
     m l = Some f \<or> (\<exists>vs. (f, vs) \<in> set table \<and> first_match vs columns = Inr (Some l))"
proof (induction table arbitrary: m)
  case Nil
  then show ?case by simp
next
  case (Cons p table)
  obtain g vs where p: "p = (g, vs)" by (cases p)
  show ?case
  proof (cases "first_match vs columns")
    case (Inl e)
    with Cons.prems show ?thesis by (simp add: p)
  next
    case (Inr r)
    show ?thesis
    proof (cases r)
      case None
      with Cons Inr show ?thesis by (fastforce simp: p)
    next
      case (Some k)
      with Cons.prems Inr have "collect_renames table columns (m(k \<mapsto> g)) = Inr d"
        by (simp add: p)
      from Cons.IH [OF this Cons.prems(2)] Inr Some show ?thesis
        by (auto simp: p split: if_splits)
    qed
  qed
qed

lemma collect_renames_keeps:
  "collect_renames table columns m = Inr d \<Longrightarrow> m l \<noteq> None \<Longrightarrow> d l \<noteq> None"
proof (induction table arbitrary: m)
  case Nil
  then show ?case by simp
next
  case (Cons p table)
  obtain g ws where p: "p = (g, ws)" by (cases p)
  from Cons.prems(1) obtain r where r: "first_match ws columns = Inr r"
    by (cases "first_match ws columns") (simp_all add: p)
  define m' where "m' = (case r of None \<Rightarrow> m | Some k \<Rightarrow> m(k \<mapsto> g))"
  from Cons.prems(1) r have run: "collect_renames table columns m' = Inr d"
    by (simp add: p m'_def split: option.splits)
  have "m' l \<noteq> None"
    using Cons.prems(2) by (simp add: m'_def split: option.splits)
  from Cons.IH [OF run this] show ?case .
qed

lemma collect_renames_SomeI:
  "collect_renames table columns m = Inr d \<Longrightarrow>
   (f, vs) \<in> set table \<Longrightarrow> first_match vs columns = Inr (Some l) \<Longrightarrow>
   (\<forall>f' vs'. (f', vs') \<in> set table \<longrightarrow> first_match vs' columns = Inr (Some l) \<longrightarrow> f' = f) \<Longrightarrow>
   d l = Some f"
proof (induction table arbitrary: m)
  case Nil
  then show ?case by simp
next
  case (Cons p table)
  obtain g ws where p: "p = (g, ws)" by (cases p)
  from Cons.prems(1) obtain r where r: "first_match ws columns = Inr r"
    by (cases "first_match ws columns") (simp_all add: p)
  define m' where "m' = (case r of None \<Rightarrow> m | Some k \<Rightarrow> m(k \<mapsto> g))"
  from Cons.prems(1) r have run: "collect_renames table columns m' = Inr d"
    by (simp add: p m'_def split: option.splits)
  show ?case
  proof (cases "(f, vs) \<in> set table")
    case True
    have "\<forall>f' vs'. (f', vs') \<in> set table \<longrightarrow> first_match vs' columns = Inr (Some l) \<longrightarrow> f' = f"
      using Cons.prems(4) by simp
    from Cons.IH [OF run True Cons.prems(3) this] show ?thesis .
  next
    case False
    with Cons.prems(2) have eq: "g = f" "ws = vs" by (simp_all add: p)
    from r Cons.prems(3) have "r = Some l" by (simp add: eq)
    then have here: "m' l = Some f" by (simp add: m'_def eq)
    then obtain f' where f': "d l = Some f'"
      using collect_renames_keeps [OF run, of l] by auto
    from collect_renames_SomeD [OF run f'] here Cons.prems(4) have "f' = f"
      by auto
    with f' show ?thesis by simp
  qed
qed



lemma rename_labels:
  "labels (rename d df) = map (\<lambda>l. case d l of Some s \<Rightarrow> Txt s | None \<Rightarrow> l) (labels df)"
  by (simp add: rename_def labels_def comp_def)

lemma rename_cells: "map snd (cols (rename d df)) = map snd (cols df)"
  by (simp add: rename_def comp_def)

text \<open>
  Claim C7. Schema mapping leaves a table alone whose column labels are all canonical field
  names: \<open>standardize_columns\<close> raises nothing and returns the very table it was
  given (labels, cells and row count). The table may carry all nine names or only some of
  them, in any order.
\<close>

theorem standardize_columns_canonical_noop:
  assumes "set (labels df) \<subseteq> Txt ` set canonical_fields"
  shows "standardize_columns df = Inr df"
proof -
  have "list_all is_text (labels df)"
    using assms by (auto simp: list_all_iff)
  then obtain d where d: "collect_renames get_column_mappings (labels df) Map.empty = Inr d"
    using collect_renames_text by blast
  have keep: "(case d l of Some s \<Rightarrow> Txt s | None \<Rightarrow> l) = l" if "l \<in> set (labels df)" for l
  proof (cases "d l")
    case None
    then show ?thesis by simp
  next
    case (Some f)
    from collect_renames_SomeD [OF d Some] obtain vs where
      vs: "(f, vs) \<in> set get_column_mappings" "first_match vs (labels df) = Inr (Some l)"
      by auto
    from first_match_SomeD [OF vs(2)] obtain c where c: "l = Txt c" "matches vs c" by blast
    from that assms c(1) have "c \<in> set canonical_fields" by auto
    then obtain ws where "(c, ws) \<in> set get_column_mappings"
      by (auto simp: canonical_fields_def)
    from canonical_matches_own [OF this vs(1) c(2)] Some c(1) show ?thesis by simp
  qed
  have "map (\<lambda>kc. (case d (fst kc) of Some s \<Rightarrow> Txt s | None \<Rightarrow> fst kc, snd kc)) (cols df) = cols df"
    by (rule map_idI) (use keep in \<open>auto simp: labels_def\<close>)
  then have "rename d df = df" by (simp add: rename_def)
  with d show ?thesis by (simp add: standardize_columns_def)
qed

text \<open>
  Claim C2, as the code has it. On a table whose labels are all text, schema mapping raises
  no error. Where several columns are aliases of one canonical field, the first of them in
  the table's column order (the one at position \<open>length pre\<close>) is renamed to the
  canonical name; every other alias column, with a label of its own, keeps that label.
  Cells and row count are untouched.
\<close>

theorem standardize_columns_first_match:
  assumes textual: "list_all is_text (labels df)"
    and entry: "(f, vs) \<in> set get_column_mappings"
    and cut: "labels df = pre @ Txt c # post"
    and first: "matches vs c" "\<forall>d. Txt d \<in> set pre \<longrightarrow> \<not> matches vs d"
  shows "\<exists>df'. standardize_columns df = Inr df' \<and>
           nrows df' = nrows df \<and>
           map snd (cols df') = map snd (cols df) \<and>
           labels df' ! length pre = Txt f \<and>
           (\<forall>j d. j < length (labels df) \<and> labels df ! j = Txt d \<and> d \<noteq> c \<and> matches vs d
                \<longrightarrow> labels df' ! j = Txt d)"
proof -
  let ?cs = "labels df"
  obtain m where m: "collect_renames get_column_mappings ?cs Map.empty = Inr m"
    using collect_renames_text [OF textual] by blast
  have "\<forall>l \<in> set pre. \<exists>d. l = Txt d \<and> \<not> matches vs d"
  proof
    fix l assume l: "l \<in> set pre"
    with textual cut have "is_text l" by (auto simp: list_all_iff)
    then obtain d where "l = Txt d" by (cases l) auto
    with first(2) l show "\<exists>d. l = Txt d \<and> \<not> matches vs d" by auto
  qed
  from first_match_first [OF this first(1)] cut
  have fm: "first_match vs ?cs = Inr (Some (Txt c))" by simp
  have unique: "f' = f \<and> vs' = vs"
    if "(f', vs') \<in> set get_column_mappings" "first_match vs' ?cs = Inr (Some (Txt d))" "matches vs d"
    for f' vs' d
  proof -
    from first_match_SomeD [OF that(2)] have "matches vs' d" by auto
    from aliases_disjoint [OF that(1) entry this that(3)] show ?thesis .
  qed
  have "\<forall>f' vs'. (f', vs') \<in> set get_column_mappings \<longrightarrow>
          first_match vs' ?cs = Inr (Some (Txt c)) \<longrightarrow> f' = f"
    using unique first(1) by blast
  from collect_renames_SomeI [OF m entry fm this] have mc: "m (Txt c) = Some f" .
  have md: "m (Txt d) = None" if "d \<noteq> c" "matches vs d" for d
  proof (cases "m (Txt d)")
    case None
    then show ?thesis .
  next
    case (Some f')
    from collect_renames_SomeD [OF m Some] obtain vs' where
      vs': "(f', vs') \<in> set get_column_mappings" "first_match vs' ?cs = Inr (Some (Txt d))"
      by auto
    from unique [OF vs' that(2)] vs'(2) fm that(1) show ?thesis by simp
  qed
  let ?df' = "rename m df"
  have "standardize_columns df = Inr ?df'"
    using m by (simp add: standardize_columns_def)
  moreover have "nrows ?df' = nrows df" by (simp add: rename_def)
  moreover have "map snd (cols ?df') = map snd (cols df)" by (rule rename_cells)
  moreover have "labels ?df' ! length pre = Txt f"
    using mc cut by (simp add: rename_labels nth_append)
  moreover have "labels ?df' ! j = Txt d"
    if "j < length ?cs" "?cs ! j = Txt d" "d \<noteq> c" "matches vs d" for j d
    using that md [OF that(3,4)] by (simp add: rename_labels)
  ultimately show ?thesis by blast
qed

theorem standardize_columns_canonical_noop_witness:
  "set (labels canonical_table) \<subseteq> Txt ` set canonical_fields \<and>
   standardize_columns canonical_table = Inr canonical_table"
proof -
  have h: "set (labels canonical_table) \<subseteq> Txt ` set canonical_fields"
    by (simp add: canonical_table_def labels_def canonical_fields_def get_column_mappings_def)
  from standardize_columns_canonical_noop [OF h] h show ?thesis by simp
qed

text \<open>
  Claim C2 as stated fails: with the two alias columns \<open>summary\<close> and \<open>description\<close>
  in this order, \<open>title\<close> ends up holding the cells of \<open>summary\<close>, the earlier
  column, and the later one is not the one that is kept.
\<close>

theorem standardize_columns_later_alias_counterexample:
  "standardize_columns two_titles =
     Inr \<lparr>nrows = 1, cols = [(Txt ''title'', [Str ''A'']), (Txt ''description'', [Str ''B''])]\<rparr>"
  by code_simp

text \<open>A label that is not text makes \<open>col.lower()\<close> raise; this is why the property
  above speaks of tables whose labels are all text.\<close>

lemma standardize_columns_number_label:
  "standardize_columns numbered_header = Inl AttributeError"
  by code_simp

lemma matches_title_aliases:
  "\<not> matches [''title'', ''summary'', ''description'', ''issue_title'', ''incident_title''] ''id''"
  "matches [''title'', ''summary'', ''description'', ''issue_title'', ''incident_title''] ''Summary''"
  by code_simp+

theorem standardize_columns_first_match_witness:
  "\<exists>df'. standardize_columns three_columns = Inr df' \<and>
         labels df' ! 1 = Txt ''title'' \<and> labels df' ! 2 = Txt ''description''"
proof -
  let ?vs = "[''title'', ''summary'', ''description'', ''issue_title'', ''incident_title'']"
  have h1: "list_all is_text (labels three_columns)"
    by (simp add: three_columns_def labels_def)
  have h2: "(''title'', ?vs) \<in> set get_column_mappings"
    by (simp add: get_column_mappings_def)
  have h3: "labels three_columns = [Txt ''id''] @ Txt ''Summary'' # [Txt ''description'']"
    by (simp add: three_columns_def labels_def)
  have h4: "matches ?vs ''Summary''" by (rule matches_title_aliases)
  have h5: "\<forall>d. Txt d \<in> set [Txt ''id''] \<longrightarrow> \<not> matches ?vs d"
    using matches_title_aliases(1) by simp
  have h6: "matches ?vs ''description''" by code_simp
  from standardize_columns_first_match [OF h1 h2 h3 h4 h5] obtain df' where
    df': "standardize_columns three_columns = Inr df'" "labels df' ! 1 = Txt ''title''"
      "\<forall>j d. j < length (labels three_columns) \<and> labels three_columns ! j = Txt d \<and>
           d \<noteq> ''Summary'' \<and> matches ?vs d \<longrightarrow> labels df' ! j = Txt d"
    by auto
  from df'(3) [rule_format, of 2 "''description''"] h6
  have "labels df' ! 2 = Txt ''description''"
    by (simp add: three_columns_def labels_def)
  with df'(1,2) show ?thesis by blast
qed


section \<open>The preprocessing pipeline: properties\<close>

lemma nrows_set_column [simp]: "nrows (set_column df l v) = nrows df"
  by (simp add: set_column_def)

lemma labels_set_column:
  "labels (set_column df l v) = (if l \<in> set (labels df) then labels df else labels df @ [l])"
  by (auto simp: set_column_def labels_def comp_def intro!: map_cong)

lemma columns_named_empty: "columns_named df l = [] \<longleftrightarrow> l \<notin> set (labels df)"
  by (auto simp: columns_named_def labels_def filter_empty_conv)

lemma columns_named_set_column_other:
  assumes "k \<noteq> l"
  shows "columns_named (set_column df l v) k = columns_named df k"
proof -
  have "map snd (filter (\<lambda>kc. fst kc = k) (map (\<lambda>kc. if fst kc = l then (fst kc, v) else kc) xs))
        = map snd (filter (\<lambda>kc. fst kc = k) xs)" for xs :: "(label \<times> cell list) list"
    using assms by (induction xs) auto
  then show ?thesis
    using assms by (simp add: set_column_def columns_named_def)
qed

lemma columns_named_set_column_same:
  "columns_named (set_column df l v) l =
     (if l \<in> set (labels df) then replicate (length (columns_named df l)) v else [v])"
proof -
  have "map snd (filter (\<lambda>kc. fst kc = l) (map (\<lambda>kc. if fst kc = l then (fst kc, v) else kc) xs))
        = replicate (length (filter (\<lambda>kc. fst kc = l) xs)) v" for xs :: "(label \<times> cell list) list"
    by (induction xs) auto
  moreover have "l \<notin> fst ` set xs \<Longrightarrow> filter (\<lambda>kc. fst kc = l) xs = []" for xs :: "(label \<times> cell list) list"
    by (induction xs) auto
  ultimately show ?thesis
    by (simp add: set_column_def columns_named_def labels_def)
qed

lemma columns_named_single_set:
  "columns_named df l = [c] \<Longrightarrow> columns_named (set_column df l v) l = [v]"
  using columns_named_empty [of df l] by (simp add: columns_named_set_column_same)

lemma well_formed_set_column:
  "well_formed df \<Longrightarrow> length v = nrows df \<Longrightarrow> well_formed (set_column df l v)"
  by (auto simp: well_formed_def set_column_def list_all_iff)

lemma well_formed_columns_named:
  "well_formed df \<Longrightarrow> c \<in> set (columns_named df l) \<Longrightarrow> length c = nrows df"
  by (auto simp: well_formed_def columns_named_def list_all_iff)


lemma text_fields_required_aux: "list_all (\<lambda>f. f \<in> set required_columns) text_fields"
  by code_simp

lemma text_fields_not_id_aux: "list_all (\<lambda>f. f \<noteq> ''incident_id'') text_fields"
  by code_simp

lemma date_fields_required_aux:
  "list_all (\<lambda>f. f \<in> set required_columns) [''created_date'', ''resolved_date'']"
  by code_simp

lemma required_columns_kinds_aux:
  "list_all (\<lambda>c. c = ''incident_id'' \<or> c \<in> set text_fields \<or>
                  c \<in> set [''created_date'', ''resolved_date'']) required_columns"
  by code_simp

lemma id_required_aux: "''incident_id'' \<in> set required_columns"
  by code_simp

lemma text_fields_required: "f \<in> set text_fields \<Longrightarrow> f \<in> set required_columns"
  using text_fields_required_aux unfolding list_all_iff by blast

lemma text_field_not_id: "f \<in> set text_fields \<Longrightarrow> f \<noteq> ''incident_id''"
  using text_fields_not_id_aux unfolding list_all_iff by blast

lemma add_missing_column_shape:
  "(add_missing_column lib df col = df \<and>
      (Txt col \<in> set (labels df) \<or> col \<notin> set required_columns)) \<or>
   (Txt col \<notin> set (labels df) \<and> col \<in> set required_columns \<and>
      (\<exists>v. length v = nrows df \<and> add_missing_column lib df col = set_column df (Txt col) v))"
proof (cases "Txt col \<in> set (labels df)")
  case True
  then show ?thesis by (simp only: add_missing_column_def simp_thms if_False)
next
  case absent: False
  show ?thesis
  proof (cases "col = ''incident_id''")
    case True
    have "add_missing_column lib df col =
            set_column df (Txt col) (map (\<lambda>i. Num (real i)) [1..<nrows df + 1])"
      using absent by (simp only: add_missing_column_def True simp_thms if_True)
    moreover have "length (map (\<lambda>i. Num (real i)) [1..<nrows df + 1]) = nrows df"
      by simp
    moreover have "col \<in> set required_columns"
      using id_required_aux by (simp only: True)
    ultimately show ?thesis using absent by blast
  next
    case not_id: False
    show ?thesis
    proof (cases "col \<in> set text_fields")
      case True
      have "add_missing_column lib df col =
              set_column df (Txt col) (replicate (nrows df) (Str ''Unknown''))"
        using absent not_id True
        by (simp only: add_missing_column_def text_fields_def simp_thms if_True if_False)
      moreover have "length (replicate (nrows df) (Str ''Unknown'')) = nrows df"
        by simp
      moreover have "col \<in> set required_columns"
        using True by (rule text_fields_required)
      ultimately show ?thesis using absent by blast
    next
      case not_text: False
      show ?thesis
      proof (cases "col \<in> set [''created_date'', ''resolved_date'']")
        case True
        have "add_missing_column lib df col =
                set_column df (Txt col) (replicate (nrows df) (Time (now lib col)))"
          using absent not_id not_text True
          by (simp only: add_missing_column_def text_fields_def simp_thms if_True if_False)
        moreover have "length (replicate (nrows df) (Time (now lib col))) = nrows df"
          by simp
        moreover have "col \<in> set required_columns"
          using True date_fields_required_aux unfolding list_all_iff by blast
        ultimately show ?thesis using absent by blast
      next
        case False
        have "add_missing_column lib df col = df"
          using absent not_id not_text False
          by (simp only: add_missing_column_def text_fields_def simp_thms if_True if_False)
        moreover have "col \<notin> set required_columns"
          using not_id not_text False required_columns_kinds_aux unfolding list_all_iff by blast
        ultimately show ?thesis by simp
      qed
    qed
  qed
qed

lemma add_missing_column_nrows [simp]: "nrows (add_missing_column lib df col) = nrows df"
  using add_missing_column_shape [of lib df col] by auto

lemma add_missing_column_present:
  "Txt col \<in> set (labels df) \<Longrightarrow> add_missing_column lib df col = df"
  by (simp add: add_missing_column_def)

lemma add_missing_column_other:
  assumes "k \<noteq> Txt col"
  shows "columns_named (add_missing_column lib df col) k = columns_named df k"
  using add_missing_column_shape [of lib df col] columns_named_set_column_other [OF assms]
  by auto

lemma add_missing_column_text:
  assumes "Txt col \<notin> set (labels df)" "col \<in> set text_fields"
  shows "columns_named (add_missing_column lib df col) (Txt col) =
           [replicate (nrows df) (Str ''Unknown'')]"
proof -
  have "add_missing_column lib df col =
          set_column df (Txt col) (replicate (nrows df) (Str ''Unknown''))"
    using assms text_field_not_id [OF assms(2)]
    by (simp only: add_missing_column_def text_fields_def simp_thms if_True if_False)
  with assms(1) show ?thesis
    by (simp add: columns_named_set_column_same)
qed

lemma add_missing_column_labels:
  "l \<in> set (labels (add_missing_column lib df col)) \<longleftrightarrow>
     l \<in> set (labels df) \<or> (l = Txt col \<and> col \<in> set required_columns)"
  using add_missing_column_shape [of lib df col]
  by (auto simp: labels_set_column)

lemma add_missing_column_well_formed:
  "well_formed df \<Longrightarrow> well_formed (add_missing_column lib df col)"
  using add_missing_column_shape [of lib df col]
  by (auto simp: well_formed_set_column)

lemma add_missing_columns_nrows [simp]: "nrows (add_missing_columns lib df) = nrows df"
proof -
  have "nrows (foldl (add_missing_column lib) df cs) = nrows df" for cs
    by (induction cs arbitrary: df) simp_all
  then show ?thesis by (simp add: add_missing_columns_def)
qed

lemma add_missing_columns_well_formed:
  "well_formed df \<Longrightarrow> well_formed (add_missing_columns lib df)"
proof -
  have "well_formed df \<Longrightarrow> well_formed (foldl (add_missing_column lib) df cs)" for cs
    by (induction cs arbitrary: df) (simp_all add: add_missing_column_well_formed)
  then show "well_formed df \<Longrightarrow> well_formed (add_missing_columns lib df)"
    by (simp add: add_missing_columns_def)
qed

lemma fold_missing_labels:
  "l \<in> set (labels (foldl (add_missing_column lib) df cs)) \<longleftrightarrow>
     l \<in> set (labels df) \<or> (\<exists>c \<in> set cs. l = Txt c \<and> c \<in> set required_columns)"
  by (induction cs arbitrary: df) (auto simp: add_missing_column_labels)

lemma fold_missing_present:
  "l \<in> set (labels df) \<Longrightarrow>
     columns_named (foldl (add_missing_column lib) df cs) l = columns_named df l"
proof (induction cs arbitrary: df)
  case Nil
  then show ?case by simp
next
  case (Cons c cs)
  have "l \<in> set (labels (add_missing_column lib df c))"
    using Cons.prems by (simp add: add_missing_column_labels)
  from Cons.IH [OF this] have
    "columns_named (foldl (add_missing_column lib) df (c # cs)) l =
       columns_named (add_missing_column lib df c) l" by simp
  also have "\<dots> = columns_named df l"
  proof (cases "l = Txt c")
    case True
    with Cons.prems show ?thesis by (simp add: add_missing_column_present)
  next
    case False
    then show ?thesis by (simp add: add_missing_column_other)
  qed
  finally show ?case .
qed

lemma fold_missing_absent:
  assumes "Txt f \<notin> set (labels df)" "f \<in> set cs" "f \<in> set text_fields"
  shows "columns_named (foldl (add_missing_column lib) df cs) (Txt f) =
           [replicate (nrows df) (Str ''Unknown'')]"
  using assms
proof (induction cs arbitrary: df)
  case Nil
  then show ?case by simp
next
  case (Cons c cs)
  show ?case
  proof (cases "c = f")
    case True
    have req: "f \<in> set required_columns"
      using Cons.prems(3) by (rule text_fields_required)
    have "Txt f \<in> set (labels (add_missing_column lib df f))"
      using req by (simp add: add_missing_column_labels)
    from fold_missing_present [OF this] True
      add_missing_column_text [OF Cons.prems(1) Cons.prems(3)]
    show ?thesis by simp
  next
    case False
    have "Txt f \<notin> set (labels (add_missing_column lib df c))"
      using Cons.prems(1) False by (simp add: add_missing_column_labels)
    moreover have "f \<in> set cs" using Cons.prems(2) False by simp
    ultimately show ?thesis
      using Cons.IH [of "add_missing_column lib df c"] Cons.prems(3) by simp
  qed
qed

lemma add_missing_columns_text_field:
  assumes "f \<in> set text_fields"
  shows "columns_named (add_missing_columns lib df) (Txt f) =
           (if Txt f \<in> set (labels df) then columns_named df (Txt f)
            else [replicate (nrows df) (Str ''Unknown'')])"
proof -
  have "f \<in> set required_columns"
    using assms by (rule text_fields_required)
  then show ?thesis
    using assms
    by (simp add: add_missing_columns_def fold_missing_present fold_missing_absent)
qed

lemma add_missing_columns_kept:
  "l \<in> set (labels df) \<Longrightarrow> columns_named (add_missing_columns lib df) l = columns_named df l"
  by (simp add: add_missing_columns_def fold_missing_present)

lemma add_missing_columns_labels:
  "l \<in> set (labels (add_missing_columns lib df)) \<longleftrightarrow>
     l \<in> set (labels df) \<or> l \<in> Txt ` set required_columns"
  by (auto simp: add_missing_columns_def fold_missing_labels)


lemma and_then_Inr: "and_then r f = Inr y \<longleftrightarrow> (\<exists>x. r = Inr x \<and> f x = Inr y)"
  by (cases r) (simp_all add: and_then_def)

lemma rename_nrows [simp]: "nrows (rename d df) = nrows df"
  by (simp add: rename_def)

lemma rename_well_formed: "well_formed df \<Longrightarrow> well_formed (rename d df)"
  by (simp add: well_formed_def rename_def list_all_iff)

lemma standardize_columns_InrD:
  assumes "standardize_columns raw = Inr mapped"
  shows "nrows mapped = nrows raw" and "well_formed raw \<Longrightarrow> well_formed mapped"
  using assms
  by (auto simp: standardize_columns_def rename_well_formed split: sum.splits)

lemma convert_date_column_InrD:
  assumes "convert_date_column lib df col = Inr df'"
  shows "nrows df' = nrows df"
    and "labels df' = labels df"
    and "k \<noteq> Txt col \<Longrightarrow> columns_named df' k = columns_named df k"
    and "Txt col \<in> set (labels df) \<Longrightarrow>
           \<exists>cells ts. columns_named df (Txt col) = [cells] \<and> to_datetime lib cells = Inr ts \<and>
                      columns_named df' (Txt col) = [map timestamp_cell ts]"
    and "well_formed df \<Longrightarrow> length_preserving lib \<Longrightarrow> well_formed df'"
proof -
  show "nrows df' = nrows df"
    using assms by (auto simp: convert_date_column_def split: if_splits list.splits sum.splits)
  show "labels df' = labels df"
    using assms
    by (auto simp: convert_date_column_def labels_set_column split: if_splits list.splits sum.splits)
  show "columns_named df' k = columns_named df k" if "k \<noteq> Txt col"
    using assms that
    by (auto simp: convert_date_column_def columns_named_set_column_other
             split: if_splits list.splits sum.splits)
  show "\<exists>cells ts. columns_named df (Txt col) = [cells] \<and> to_datetime lib cells = Inr ts \<and>
                   columns_named df' (Txt col) = [map timestamp_cell ts]"
    if "Txt col \<in> set (labels df)"
    using assms that
    by (auto simp: convert_date_column_def columns_named_single_set
             split: if_splits list.splits sum.splits)
  show "well_formed df'" if wf: "well_formed df" and lp: "length_preserving lib"
  proof (cases "Txt col \<in> set (labels df)")
    case False
    with assms wf show ?thesis by (simp add: convert_date_column_def)
  next
    case True
    with assms obtain cells ts where
      c: "columns_named df (Txt col) = [cells]" "to_datetime lib cells = Inr ts"
         "df' = set_column df (Txt col) (map timestamp_cell ts)"
      by (auto simp: convert_date_column_def split: list.splits sum.splits)
    from lp c(2) have "length ts = length cells" by (auto simp: length_preserving_def)
    moreover from well_formed_columns_named [OF wf, of cells "Txt col"] c(1)
    have "length cells = nrows df" by simp
    ultimately show ?thesis using wf c(3) by (simp add: well_formed_set_column)
  qed
qed

lemma timestamp_cells_datetime: "list_all datetime_cell (map timestamp_cell ts)"
  by (induction ts) (auto simp: timestamp_cell_def split: option.splits)

lemma derive_resolution_time_InrD:
  assumes "derive_resolution_time df = Inr df'"
  shows "nrows df' = nrows df"
    and "k \<noteq> Txt ''resolution_time'' \<Longrightarrow> columns_named df' k = columns_named df k"
    and "Txt ''resolution_time'' \<in> set (labels df) \<Longrightarrow> df' = df"
    and "Txt ''resolution_time'' \<notin> set (labels df) \<Longrightarrow>
           \<exists>resolved created.
              columns_named df (Txt ''resolved_date'') = [resolved] \<and>
              columns_named df (Txt ''created_date'') = [created] \<and>
              columns_named df' (Txt ''resolution_time'') = [map2 elapsed_hours resolved created]"
proof -
  show "Txt ''resolution_time'' \<in> set (labels df) \<Longrightarrow> df' = df"
    using assms by (simp add: derive_resolution_time_def)
  have shape: "df' = df \<or> (\<exists>v. df' = set_column df (Txt ''resolution_time'') v)"
    using assms
    by (auto simp: derive_resolution_time_def split: if_splits list.splits)
  then show "nrows df' = nrows df" by auto
  from shape show "columns_named df' k = columns_named df k" if "k \<noteq> Txt ''resolution_time''"
    using that by (auto simp: columns_named_set_column_other)
  show "\<exists>resolved created.
              columns_named df (Txt ''resolved_date'') = [resolved] \<and>
              columns_named df (Txt ''created_date'') = [created] \<and>
              columns_named df' (Txt ''resolution_time'') = [map2 elapsed_hours resolved created]"
    if "Txt ''resolution_time'' \<notin> set (labels df)"
    using assms that
    by (auto simp: derive_resolution_time_def columns_named_set_column_same
             split: if_splits list.splits)
qed

lemma derive_bucket_InrD:
  assumes "derive_bucket df target fmt = Inr df'"
  shows "nrows df' = nrows df"
    and "k \<noteq> Txt target \<Longrightarrow> columns_named df' k = columns_named df k"
    and "\<exists>created. columns_named df (Txt ''created_date'') = [created] \<and>
           df' = set_column df (Txt target) (map (strftime_cell fmt) created)"
  using assms
  by (auto simp: derive_bucket_def columns_named_set_column_other split: if_splits list.splits)

lemma derive_is_overdue_InrD:
  assumes "derive_is_overdue df = Inr df'"
  shows "\<exists>hours. columns_named df (Txt ''resolution_time'') = [hours] \<and>
           list_all comparable hours \<and>
           df' = set_column df (Txt ''is_overdue'') (map (\<lambda>c. Bool (over_24 c)) hours)"
  using assms
  by (auto simp: derive_is_overdue_def split: if_splits list.splits)


lemma convert_date_columns_InrD:
  assumes "convert_date_columns lib df = Inr df'"
  shows "\<exists>mid. convert_date_column lib df ''created_date'' = Inr mid \<and>
               convert_date_column lib mid ''resolved_date'' = Inr df'"
  using assms by (auto simp: convert_date_columns_def split: sum.splits)

lemma pipeline_InrD:
  assumes "pipeline lib raw = Inr df"
  shows "\<exists>mapped mid dated d1 d2 d3.
           standardize_columns raw = Inr mapped \<and>
           convert_date_column lib (add_missing_columns lib mapped) ''created_date'' = Inr mid \<and>
           convert_date_column lib mid ''resolved_date'' = Inr dated \<and>
           derive_resolution_time dated = Inr d1 \<and>
           derive_bucket d1 ''month_year'' (strftime lib ''%Y-%m'') = Inr d2 \<and>
           derive_bucket d2 ''week_year'' (strftime lib ''%Y-W%U'') = Inr d3 \<and>
           derive_is_overdue d3 = Inr df"
proof -
  from assms obtain mapped dated where
    m: "standardize_columns raw = Inr mapped" and
    c: "convert_date_columns lib (add_missing_columns lib mapped) = Inr dated" and
    d: "calculate_derived_fields lib dated = Inr df"
    by (auto simp: pipeline_def and_then_Inr)
  from convert_date_columns_InrD [OF c] obtain mid where
    "convert_date_column lib (add_missing_columns lib mapped) ''created_date'' = Inr mid"
    "convert_date_column lib mid ''resolved_date'' = Inr dated" by blast
  moreover from d obtain d1 d2 d3 where
    "derive_resolution_time dated = Inr d1"
    "derive_bucket d1 ''month_year'' (strftime lib ''%Y-%m'') = Inr d2"
    "derive_bucket d2 ''week_year'' (strftime lib ''%Y-W%U'') = Inr d3"
    "derive_is_overdue d3 = Inr df"
    by (auto simp: calculate_derived_fields_def and_then_Inr)
  ultimately show ?thesis using m by blast
qed

text \<open>A column that is neither a date nor a derived field leaves the pipeline as the
  filling step left it.\<close>

lemma pipeline_untouched:
  assumes run: "pipeline lib raw = Inr df"
    and k: "k \<noteq> Txt ''created_date''" "k \<noteq> Txt ''resolved_date''"
      "k \<noteq> Txt ''resolution_time''" "k \<noteq> Txt ''month_year''" "k \<noteq> Txt ''week_year''"
      "k \<noteq> Txt ''is_overdue''"
  shows "\<exists>mapped. standardize_columns raw = Inr mapped \<and>
           columns_named df k = columns_named (add_missing_columns lib mapped) k"
proof -
  from pipeline_InrD [OF run] obtain mapped mid dated d1 d2 d3 where
    s: "standardize_columns raw = Inr mapped"
      "convert_date_column lib (add_missing_columns lib mapped) ''created_date'' = Inr mid"
      "convert_date_column lib mid ''resolved_date'' = Inr dated"
      "derive_resolution_time dated = Inr d1"
      "derive_bucket d1 ''month_year'' (strftime lib ''%Y-%m'') = Inr d2"
      "derive_bucket d2 ''week_year'' (strftime lib ''%Y-W%U'') = Inr d3"
      "derive_is_overdue d3 = Inr df"
    by blast
  from derive_is_overdue_InrD [OF s(7)] k(6)
  have "columns_named df k = columns_named d3 k"
    by (auto simp: columns_named_set_column_other)
  also have "\<dots> = columns_named d2 k" by (rule derive_bucket_InrD(2) [OF s(6) k(5)])
  also have "\<dots> = columns_named d1 k" by (rule derive_bucket_InrD(2) [OF s(5) k(4)])
  also have "\<dots> = columns_named dated k" by (rule derive_resolution_time_InrD(2) [OF s(4) k(3)])
  also have "\<dots> = columns_named mid k" by (rule convert_date_column_InrD(3) [OF s(3) k(2)])
  also have "\<dots> = columns_named (add_missing_columns lib mapped) k"
    by (rule convert_date_column_InrD(3) [OF s(2) k(1)])
  finally show ?thesis using s(1) by blast
qed

lemma text_fields_apart_aux:
  "list_all (\<lambda>f. f \<noteq> ''created_date'' \<and> f \<noteq> ''resolved_date'' \<and> f \<noteq> ''resolution_time'' \<and>
                  f \<noteq> ''month_year'' \<and> f \<noteq> ''week_year'' \<and> f \<noteq> ''is_overdue'') text_fields"
  by code_simp

lemma preprocess_data_TrueD:
  assumes "preprocess_data lib self = (True, self')"
  shows "\<exists>raw df. raw_data self = Some raw \<and> pipeline lib raw = Inr df \<and>
           self' = self\<lparr>processed_data := Some df\<rparr>"
  using assms by (auto simp: preprocess_data_def split: option.splits sum.splits)

text \<open>
  Claim C1, as the code has it. After a run of \<open>preprocess_data\<close> that answers True,
  each of the five text fields whose column is absent from the schema-mapped table holds
  the text \<open>Unknown\<close> on every row, hence no missing value. A column that is present is
  handed on as it is, cell by cell: the filling step looks only at whether the column
  exists, and nothing in the pipeline replaces a missing cell.
\<close>

theorem preprocess_data_text_fields:
  assumes "preprocess_data lib self = (True, self')" and "f \<in> set text_fields"
  shows "\<exists>raw mapped df.
           raw_data self = Some raw \<and> standardize_columns raw = Inr mapped \<and>
           processed_data self' = Some df \<and>
           columns_named df (Txt f) =
             (if Txt f \<in> set (labels mapped) then columns_named mapped (Txt f)
              else [replicate (nrows raw) (Str ''Unknown'')])"
proof -
  from preprocess_data_TrueD [OF assms(1)] obtain raw df where
    r: "raw_data self = Some raw" "pipeline lib raw = Inr df" "processed_data self' = Some df"
    by auto
  from assms(2) text_fields_apart_aux have
    "Txt f \<noteq> Txt ''created_date''" "Txt f \<noteq> Txt ''resolved_date''"
    "Txt f \<noteq> Txt ''resolution_time''" "Txt f \<noteq> Txt ''month_year''"
    "Txt f \<noteq> Txt ''week_year''" "Txt f \<noteq> Txt ''is_overdue''"
    unfolding list_all_iff by blast+
  from pipeline_untouched [OF r(2) this] obtain mapped where
    m: "standardize_columns raw = Inr mapped"
       "columns_named df (Txt f) = columns_named (add_missing_columns lib mapped) (Txt f)"
    by blast
  from m(2) add_missing_columns_text_field [OF assms(2), of lib mapped]
    standardize_columns_InrD(1) [OF m(1)]
  have "columns_named df (Txt f) =
          (if Txt f \<in> set (labels mapped) then columns_named mapped (Txt f)
           else [replicate (nrows raw) (Str ''Unknown'')])" by simp
  with r m(1) show ?thesis by blast
qed


lemma resolution_time_not_required_aux: "''resolution_time'' \<notin> set required_columns"
  by code_simp

lemma date_fields_required:
  "''created_date'' \<in> set required_columns" "''resolved_date'' \<in> set required_columns"
  by code_simp+

text \<open>What a run of the pipeline without error leaves behind, step by step.\<close>

lemma pipeline_well_formed:
  assumes run: "pipeline lib raw = Inr df" and wf: "well_formed raw" and lp: "length_preserving lib"
  shows "well_formed df" and "nrows df = nrows raw"
proof -
  from pipeline_InrD [OF run] obtain mapped mid dated d1 d2 d3 where
    s: "standardize_columns raw = Inr mapped"
      "convert_date_column lib (add_missing_columns lib mapped) ''created_date'' = Inr mid"
      "convert_date_column lib mid ''resolved_date'' = Inr dated"
      "derive_resolution_time dated = Inr d1"
      "derive_bucket d1 ''month_year'' (strftime lib ''%Y-%m'') = Inr d2"
      "derive_bucket d2 ''week_year'' (strftime lib ''%Y-W%U'') = Inr d3"
      "derive_is_overdue d3 = Inr df"
    by blast
  have n: "nrows mapped = nrows raw" "nrows mid = nrows mapped" "nrows dated = nrows mid"
    "nrows d1 = nrows dated" "nrows d2 = nrows d1" "nrows d3 = nrows d2"
    using standardize_columns_InrD(1) [OF s(1)] convert_date_column_InrD(1) [OF s(2)]
      convert_date_column_InrD(1) [OF s(3)] derive_resolution_time_InrD(1) [OF s(4)]
      derive_bucket_InrD(1) [OF s(5)] derive_bucket_InrD(1) [OF s(6)]
    by simp_all
  have w1: "well_formed (add_missing_columns lib mapped)"
    using standardize_columns_InrD(2) [OF s(1) wf] by (rule add_missing_columns_well_formed)
  have w2: "well_formed mid" by (rule convert_date_column_InrD(5) [OF s(2) w1 lp])
  have w3: "well_formed dated" by (rule convert_date_column_InrD(5) [OF s(3) w2 lp])
  have w4: "well_formed d1"
  proof (cases "Txt ''resolution_time'' \<in> set (labels dated)")
    case True
    with derive_resolution_time_InrD(3) [OF s(4)] w3 show ?thesis by simp
  next
    case False
    with s(4) obtain resolved created where
      rc: "columns_named dated (Txt ''resolved_date'') = [resolved]"
          "columns_named dated (Txt ''created_date'') = [created]"
          "d1 = set_column dated (Txt ''resolution_time'') (map2 elapsed_hours resolved created)"
      by (auto simp: derive_resolution_time_def split: if_splits list.splits)
    from well_formed_columns_named [OF w3, of resolved "Txt ''resolved_date''"]
      well_formed_columns_named [OF w3, of created "Txt ''created_date''"] rc(1,2)
    have "length resolved = nrows dated" "length created = nrows dated" by simp_all
    with w3 rc(3) show ?thesis by (simp add: well_formed_set_column)
  qed
  have bucket: "well_formed b'" if "derive_bucket b target fmt = Inr b'" "well_formed b"
    for b b' target fmt
  proof -
    from derive_bucket_InrD(3) [OF that(1)] obtain created where
      c: "columns_named b (Txt ''created_date'') = [created]"
         "b' = set_column b (Txt target) (map (strftime_cell fmt) created)" by blast
    from well_formed_columns_named [OF that(2), of created "Txt ''created_date''"] c(1)
    have "length created = nrows b" by simp
    with that(2) c(2) show ?thesis by (simp add: well_formed_set_column)
  qed
  have w5: "well_formed d2" by (rule bucket [OF s(5) w4])
  have w6: "well_formed d3" by (rule bucket [OF s(6) w5])
  from derive_is_overdue_InrD [OF s(7)] obtain hours where
    h: "columns_named d3 (Txt ''resolution_time'') = [hours]"
       "df = set_column d3 (Txt ''is_overdue'') (map (\<lambda>c. Bool (over_24 c)) hours)" by blast
  from well_formed_columns_named [OF w6, of hours "Txt ''resolution_time''"] h(1)
  have "length hours = nrows d3" by simp
  with w6 h(2) show "well_formed df" by (simp add: well_formed_set_column)
  from h(2) n show "nrows df = nrows raw" by simp
qed

lemma elapsed_hours_Time:
  "elapsed_hours (Time r) (Time c) = Num (real_of_int (r - c) / 3600000000000)"
  by simp

text \<open>A resolution time column that the source supplies is handed on as supplied, blank
  cells included.\<close>

lemma resolution_time_supplied_kept:
  assumes run: "pipeline lib raw = Inr df" and mapped: "standardize_columns raw = Inr mapped"
    and present: "Txt ''resolution_time'' \<in> set (labels mapped)"
  shows "columns_named df (Txt ''resolution_time'') = columns_named mapped (Txt ''resolution_time'')"
proof -
  let ?k = "Txt ''resolution_time''"
  from pipeline_InrD [OF run] mapped obtain mid dated d1 d2 d3 where
    s: "convert_date_column lib (add_missing_columns lib mapped) ''created_date'' = Inr mid"
      "convert_date_column lib mid ''resolved_date'' = Inr dated"
      "derive_resolution_time dated = Inr d1"
      "derive_bucket d1 ''month_year'' (strftime lib ''%Y-%m'') = Inr d2"
      "derive_bucket d2 ''week_year'' (strftime lib ''%Y-W%U'') = Inr d3"
      "derive_is_overdue d3 = Inr df"
    by auto
  have "?k \<in> set (labels (add_missing_columns lib mapped))"
    using present by (simp add: add_missing_columns_labels)
  then have "?k \<in> set (labels dated)"
    using convert_date_column_InrD(2) [OF s(1)] convert_date_column_InrD(2) [OF s(2)] by simp
  from derive_resolution_time_InrD(3) [OF s(3) this] have d1: "d1 = dated" .
  from derive_is_overdue_InrD [OF s(6)]
  have "columns_named df ?k = columns_named d3 ?k"
    by (auto simp: columns_named_set_column_other)
  also have "\<dots> = columns_named d2 ?k" by (rule derive_bucket_InrD(2) [OF s(5)]) simp
  also have "\<dots> = columns_named d1 ?k" by (rule derive_bucket_InrD(2) [OF s(4)]) simp
  also have "\<dots> = columns_named mid ?k"
    unfolding d1 by (rule convert_date_column_InrD(3) [OF s(2)]) simp
  also have "\<dots> = columns_named (add_missing_columns lib mapped) ?k"
    by (rule convert_date_column_InrD(3) [OF s(1)]) simp
  also have "\<dots> = columns_named mapped ?k"
    using present by (rule add_missing_columns_kept)
  finally show ?thesis .
qed

text \<open>A resolution time column that the source does not supply is computed from the two
  dates, row by row.\<close>

lemma resolution_time_derived:
  assumes ok: "preprocess_data lib self = (True, self')"
    and raw: "raw_data self = Some raw" and mapped: "standardize_columns raw = Inr mapped"
    and absent: "Txt ''resolution_time'' \<notin> set (labels mapped)"
    and wf: "well_formed raw" and lp: "length_preserving lib"
  shows "\<exists>df created resolved hours.
           processed_data self' = Some df \<and>
           columns_named df (Txt ''created_date'') = [created] \<and>
           columns_named df (Txt ''resolved_date'') = [resolved] \<and>
           columns_named df (Txt ''resolution_time'') = [hours] \<and>
           length created = nrows df \<and> length resolved = nrows df \<and> length hours = nrows df \<and>
           (\<forall>i c r. i < nrows df \<and> created ! i = Time c \<and> resolved ! i = Time r \<longrightarrow>
                      hours ! i = Num (real_of_int (r - c) / 3600000000000))"
proof -
  from preprocess_data_TrueD [OF ok] raw obtain df where
    run: "pipeline lib raw = Inr df" and out: "processed_data self' = Some df" by auto
  from pipeline_InrD [OF run] mapped obtain mid dated d1 d2 d3 where
    s: "convert_date_column lib (add_missing_columns lib mapped) ''created_date'' = Inr mid"
      "convert_date_column lib mid ''resolved_date'' = Inr dated"
      "derive_resolution_time dated = Inr d1"
      "derive_bucket d1 ''month_year'' (strftime lib ''%Y-%m'') = Inr d2"
      "derive_bucket d2 ''week_year'' (strftime lib ''%Y-W%U'') = Inr d3"
      "derive_is_overdue d3 = Inr df"
    by auto
  have "Txt ''resolution_time'' \<notin> set (labels (add_missing_columns lib mapped))"
    using absent resolution_time_not_required_aux by (auto simp: add_missing_columns_labels)
  then have "Txt ''resolution_time'' \<notin> set (labels dated)"
    using convert_date_column_InrD(2) [OF s(1)] convert_date_column_InrD(2) [OF s(2)] by simp
  from derive_resolution_time_InrD(4) [OF s(3) this] obtain resolved created where
    rc: "columns_named dated (Txt ''resolved_date'') = [resolved]"
        "columns_named dated (Txt ''created_date'') = [created]"
        "columns_named d1 (Txt ''resolution_time'') = [map2 elapsed_hours resolved created]"
    by blast
  define hours where "hours = map2 elapsed_hours resolved created"
  have keep: "columns_named df k = columns_named d1 k"
    if "k \<noteq> Txt ''month_year''" "k \<noteq> Txt ''week_year''" "k \<noteq> Txt ''is_overdue''" for k
  proof -
    from derive_is_overdue_InrD [OF s(6)] that(3)
    have "columns_named df k = columns_named d3 k"
      by (auto simp: columns_named_set_column_other)
    also have "\<dots> = columns_named d2 k" by (rule derive_bucket_InrD(2) [OF s(5) that(2)])
    also have "\<dots> = columns_named d1 k" by (rule derive_bucket_InrD(2) [OF s(4) that(1)])
    finally show ?thesis .
  qed
  have c: "columns_named df (Txt ''created_date'') = [created]"
    using keep [of "Txt ''created_date''"] derive_resolution_time_InrD(2) [OF s(3), of "Txt ''created_date''"] rc(2)
    by simp
  have r: "columns_named df (Txt ''resolved_date'') = [resolved]"
    using keep [of "Txt ''resolved_date''"] derive_resolution_time_InrD(2) [OF s(3), of "Txt ''resolved_date''"] rc(1)
    by simp
  have h: "columns_named df (Txt ''resolution_time'') = [hours]"
    using keep [of "Txt ''resolution_time''"] rc(3) by (simp add: hours_def)
  from pipeline_well_formed [OF run wf lp] have w: "well_formed df" by simp
  have len: "length created = nrows df" "length resolved = nrows df" "length hours = nrows df"
    using well_formed_columns_named [OF w, of created "Txt ''created_date''"]
      well_formed_columns_named [OF w, of resolved "Txt ''resolved_date''"]
      well_formed_columns_named [OF w, of hours "Txt ''resolution_time''"] c r h
    by simp_all
  have "hours ! i = Num (real_of_int (r' - c') / 3600000000000)"
    if "i < nrows df" "created ! i = Time c'" "resolved ! i = Time r'" for i c' r'
    using that len by (simp add: hours_def)
  with out c r h len show ?thesis by blast
qed


text \<open>
  Claim C6, as the code has it. Take a run of \<open>preprocess_data\<close> that answers True on a
  table in which every column is as long as the table has rows. The code asks whether the
  table has a column \<open>resolution_time\<close> (\<open>'resolution_time' not in df.columns\<close>),
  not whether a record has a value. If the schema-mapped table has no such column, the
  processed table has one column each of \<open>created_date\<close>, \<open>resolved_date\<close> and
  \<open>resolution_time\<close>, and on every row where both dates are time stamps the resolution
  time is their difference in hours (nanoseconds divided by \<open>3600 * 10^9\<close>). If the
  table has the column, it is handed on as supplied: a record whose cell is blank, or
  which comes from a file without the column, keeps a missing resolution time whatever its
  dates are.
\<close>

theorem resolution_time_is_elapsed_hours:
  assumes ok: "preprocess_data lib self = (True, self')"
    and raw: "raw_data self = Some raw" and mapped: "standardize_columns raw = Inr mapped"
    and wf: "well_formed raw" and lp: "length_preserving lib"
  shows "\<exists>df.
           processed_data self' = Some df \<and>
           (Txt ''resolution_time'' \<notin> set (labels mapped) \<longrightarrow>
              (\<exists>created resolved hours.
                 columns_named df (Txt ''created_date'') = [created] \<and>
                 columns_named df (Txt ''resolved_date'') = [resolved] \<and>
                 columns_named df (Txt ''resolution_time'') = [hours] \<and>
                 length created = nrows df \<and> length resolved = nrows df \<and>
                 length hours = nrows df \<and>
                 (\<forall>i c r. i < nrows df \<and> created ! i = Time c \<and> resolved ! i = Time r \<longrightarrow>
                            hours ! i = Num (real_of_int (r - c) / 3600000000000)))) \<and>
           (Txt ''resolution_time'' \<in> set (labels mapped) \<longrightarrow>
              columns_named df (Txt ''resolution_time'') =
                columns_named mapped (Txt ''resolution_time''))"
proof -
  from preprocess_data_TrueD [OF ok] raw obtain df where
    run: "pipeline lib raw = Inr df" and out: "processed_data self' = Some df" by auto
  have derived: "\<exists>created resolved hours.
                 columns_named df (Txt ''created_date'') = [created] \<and>
                 columns_named df (Txt ''resolved_date'') = [resolved] \<and>
                 columns_named df (Txt ''resolution_time'') = [hours] \<and>
                 length created = nrows df \<and> length resolved = nrows df \<and>
                 length hours = nrows df \<and>
                 (\<forall>i c r. i < nrows df \<and> created ! i = Time c \<and> resolved ! i = Time r \<longrightarrow>
                            hours ! i = Num (real_of_int (r - c) / 3600000000000))"
    if "Txt ''resolution_time'' \<notin> set (labels mapped)"
    using resolution_time_derived [OF ok raw mapped that wf lp] out by auto
  have kept: "columns_named df (Txt ''resolution_time'') =
                columns_named mapped (Txt ''resolution_time'')"
    if "Txt ''resolution_time'' \<in> set (labels mapped)"
    using that by (rule resolution_time_supplied_kept [OF run mapped])
  from out derived kept show ?thesis by blast
qed

lemma over_24_iff: "over_24 c \<longleftrightarrow> (\<exists>x. c = Num x \<and> 24 < x)"
  by (cases c) auto

lemma count_over_24:
  "length (filter (\<lambda>c. c = Bool True) (map (\<lambda>c. Bool (over_24 c)) hours)) =
     card {i. i < length hours \<and> (\<exists>x. hours ! i = Num x \<and> 24 < x)}"
proof -
  have "length (filter (\<lambda>c. c = Bool True) (map (\<lambda>c. Bool (over_24 c)) hours)) =
          length (filter over_24 hours)"
    by (simp add: filter_map comp_def)
  also have "\<dots> = card {i. i < length hours \<and> over_24 (hours ! i)}"
    by (rule length_filter_conv_card)
  finally show ?thesis by (simp add: over_24_iff)
qed

text \<open>
  Claim C9. After a run of \<open>preprocess_data\<close> that answers True, on every row the
  flag \<open>is_overdue\<close> is true exactly when \<open>resolution_time\<close> holds a number
  greater than 24, and it is false otherwise; so a row whose resolution time is missing,
  negative or at most 24 is false. The entry \<open>overdue_incidents\<close> of the data summary
  counts exactly the rows with a number greater than 24.
\<close>

theorem is_overdue_iff_over_24:
  assumes ok: "preprocess_data lib self = (True, self')"
    and wf: "\<exists>raw. raw_data self = Some raw \<and> well_formed raw" and lp: "length_preserving lib"
  shows "\<exists>df hours.
           processed_data self' = Some df \<and>
           columns_named df (Txt ''resolution_time'') = [hours] \<and>
           length hours = nrows df \<and>
           columns_named df (Txt ''is_overdue'') \<noteq> [] \<and>
           (\<forall>flags \<in> set (columns_named df (Txt ''is_overdue'')).
              length flags = nrows df \<and>
              (\<forall>i < nrows df.
                 (flags ! i = Bool True \<longleftrightarrow> (\<exists>x. hours ! i = Num x \<and> 24 < x)) \<and>
                 (flags ! i = Bool True \<or> flags ! i = Bool False))) \<and>
           get_data_summary self' =
             Inr (Some \<lparr>total_incidents = nrows df,
                        overdue_incidents =
                          card {i. i < nrows df \<and> (\<exists>x. hours ! i = Num x \<and> 24 < x)}\<rparr>)"
proof -
  from preprocess_data_TrueD [OF ok] wf obtain raw df where
    run: "pipeline lib raw = Inr df" and out: "processed_data self' = Some df"
    and wfr: "well_formed raw" by auto
  from pipeline_InrD [OF run] obtain d3 where s: "derive_is_overdue d3 = Inr df" by blast
  from derive_is_overdue_InrD [OF s] obtain hours where
    h: "columns_named d3 (Txt ''resolution_time'') = [hours]"
       "df = set_column d3 (Txt ''is_overdue'') (map (\<lambda>c. Bool (over_24 c)) hours)" by blast
  let ?flags = "map (\<lambda>c. Bool (over_24 c)) hours"
  have rt: "columns_named df (Txt ''resolution_time'') = [hours]"
    using h by (simp add: columns_named_set_column_other)
  from pipeline_well_formed(1) [OF run wfr lp] have w: "well_formed df" .
  from well_formed_columns_named [OF w, of hours "Txt ''resolution_time''"] rt
  have len: "length hours = nrows df" by simp
  have flags: "columns_named df (Txt ''is_overdue'') \<noteq> []"
    "\<forall>flags \<in> set (columns_named df (Txt ''is_overdue'')). flags = ?flags"
    using h(2) columns_named_empty [of d3 "Txt ''is_overdue''"]
    by (auto simp: columns_named_set_column_same)
  have each: "\<forall>i < nrows df.
                (?flags ! i = Bool True \<longleftrightarrow> (\<exists>x. hours ! i = Num x \<and> 24 < x)) \<and>
                (?flags ! i = Bool True \<or> ?flags ! i = Bool False)"
    using len by (auto simp: over_24_iff)
  have flen: "length ?flags = nrows df" using len by simp
  obtain others where first: "columns_named df (Txt ''is_overdue'') = ?flags # others"
    using flags by (cases "columns_named df (Txt ''is_overdue'')") auto
  have "get_data_summary self' =
          Inr (Some \<lparr>total_incidents = nrows df,
                     overdue_incidents = length (filter (\<lambda>c. c = Bool True) ?flags)\<rparr>)"
    using out first by (simp add: get_data_summary_def)
  then have summary: "get_data_summary self' =
          Inr (Some \<lparr>total_incidents = nrows df,
                     overdue_incidents =
                       card {i. i < nrows df \<and> (\<exists>x. hours ! i = Num x \<and> 24 < x)}\<rparr>)"
    by (simp only: count_over_24 len)
  have "\<forall>flags \<in> set (columns_named df (Txt ''is_overdue'')).
          length flags = nrows df \<and>
          (\<forall>i < nrows df.
             (flags ! i = Bool True \<longleftrightarrow> (\<exists>x. hours ! i = Num x \<and> 24 < x)) \<and>
             (flags ! i = Bool True \<or> flags ! i = Bool False))"
  proof
    fix fl assume "fl \<in> set (columns_named df (Txt ''is_overdue''))"
    with flags(2) have "fl = ?flags" by blast
    with each flen show "length fl = nrows df \<and>
          (\<forall>i < nrows df.
             (fl ! i = Bool True \<longleftrightarrow> (\<exists>x. hours ! i = Num x \<and> 24 < x)) \<and>
             (fl ! i = Bool True \<or> fl ! i = Bool False))" by blast
  qed
  with out rt len flags(1) summary show ?thesis by blast
qed


section \<open>The preprocessing pipeline on the examples\<close>

lemma length_preserving_example: "length_preserving example_library"
  by (simp add: length_preserving_def example_library_def)

lemma derive_blank_title:
  "calculate_derived_fields example_library blank_title_filled = Inr blank_title_processed"
proof -
  let ?d1 = "set_column blank_title_filled (Txt ''resolution_time'') [Num 0, Num 0]"
  let ?d2 = "set_column ?d1 (Txt ''month_year'') [Str ''1970-01'', Str ''1970-01'']"
  let ?d3 = "set_column ?d2 (Txt ''week_year'') [Str ''1970-W00'', Str ''1970-W00'']"
  have a: "derive_resolution_time blank_title_filled = Inr ?d1" by code_simp
  have b: "derive_bucket ?d1 ''month_year'' (strftime example_library ''%Y-%m'') = Inr ?d2"
    by code_simp
  have c: "derive_bucket ?d2 ''week_year'' (strftime example_library ''%Y-W%U'') = Inr ?d3"
    by code_simp
  have d: "derive_is_overdue ?d3 = Inr blank_title_processed" by code_simp
  show ?thesis by (simp add: calculate_derived_fields_def and_then_def a b c d)
qed

lemma preprocess_blank_title:
  "preprocess_data example_library \<lparr>raw_data = Some blank_title, processed_data = None\<rparr> =
     (True, \<lparr>raw_data = Some blank_title, processed_data = Some blank_title_processed\<rparr>)"
proof -
  have a: "standardize_columns blank_title = Inr blank_title" by code_simp
  have b: "add_missing_columns example_library blank_title = blank_title_filled" by code_simp
  have c: "convert_date_columns example_library blank_title_filled = Inr blank_title_filled"
    by code_simp
  have "pipeline example_library blank_title = Inr blank_title_processed"
    by (simp add: pipeline_def and_then_def a b c derive_blank_title)
  then show ?thesis by (simp add: preprocess_data_def)
qed

lemma derive_ticket:
  "calculate_derived_fields example_library ticket_filled = Inr ticket_processed"
proof -
  let ?d1 = "set_column ticket_filled (Txt ''resolution_time'') [Num 30, Null]"
  let ?d2 = "set_column ?d1 (Txt ''month_year'') [Str ''1970-01'', Str ''1970-01'']"
  let ?d3 = "set_column ?d2 (Txt ''week_year'') [Str ''1970-W00'', Str ''1970-W00'']"
  have a: "derive_resolution_time ticket_filled = Inr ?d1" by code_simp
  have b: "derive_bucket ?d1 ''month_year'' (strftime example_library ''%Y-%m'') = Inr ?d2"
    by code_simp
  have c: "derive_bucket ?d2 ''week_year'' (strftime example_library ''%Y-W%U'') = Inr ?d3"
    by code_simp
  have d: "derive_is_overdue ?d3 = Inr ticket_processed" by code_simp
  show ?thesis by (simp add: calculate_derived_fields_def and_then_def a b c d)
qed

lemma standardize_ticket: "standardize_columns ticket_export = Inr ticket_mapped"
  by code_simp

lemma preprocess_ticket:
  "preprocess_data example_library \<lparr>raw_data = Some ticket_export, processed_data = None\<rparr> =
     (True, \<lparr>raw_data = Some ticket_export, processed_data = Some ticket_processed\<rparr>)"
proof -
  have b: "add_missing_columns example_library ticket_mapped = ticket_filled" by code_simp
  have c: "convert_date_columns example_library ticket_filled = Inr ticket_filled"
    by code_simp
  have "pipeline example_library ticket_export = Inr ticket_processed"
    by (simp add: pipeline_def and_then_def standardize_ticket b c derive_ticket)
  then show ?thesis by (simp add: preprocess_data_def)
qed

lemma well_formed_ticket: "well_formed ticket_export"
  by (simp add: well_formed_def ticket_export_def)


text \<open>
  Claim C1 as stated fails on a table whose \<open>title\<close> column is present with a blank
  cell: preprocessing answers True and the second record still has no title.
\<close>

theorem preprocess_data_null_title_counterexample:
  "preprocess_data example_library \<lparr>raw_data = Some blank_title, processed_data = None\<rparr> =
     (True, \<lparr>raw_data = Some blank_title, processed_data = Some blank_title_processed\<rparr>) \<and>
   columns_named blank_title_processed (Txt ''title'') = [[Str ''Disk full'', Null]]"
proof -
  have "columns_named blank_title_processed (Txt ''title'') = [[Str ''Disk full'', Null]]"
    by code_simp
  with preprocess_blank_title show ?thesis by simp
qed

theorem preprocess_data_text_fields_witness:
  "preprocess_data example_library \<lparr>raw_data = Some ticket_export, processed_data = None\<rparr> =
     (True, \<lparr>raw_data = Some ticket_export, processed_data = Some ticket_processed\<rparr>) \<and>
   ''category'' \<in> set text_fields \<and>
   columns_named ticket_processed (Txt ''category'') = [[Str ''Unknown'', Str ''Unknown'']]"
proof -
  have h: "''category'' \<in> set text_fields" by (simp add: text_fields_def)
  have absent: "Txt ''category'' \<notin> set (labels ticket_mapped)"
    by (simp add: ticket_mapped_def labels_def)
  have n: "nrows ticket_export = 2" by (simp add: ticket_export_def)
  from preprocess_data_text_fields [OF preprocess_ticket h] standardize_ticket absent
  have "columns_named ticket_processed (Txt ''category'') =
          [replicate (nrows ticket_export) (Str ''Unknown'')]" by auto
  with n have "columns_named ticket_processed (Txt ''category'') = [[Str ''Unknown'', Str ''Unknown'']]"
    by (simp add: numeral_2_eq_2)
  with preprocess_ticket h show ?thesis by blast
qed

lemma derive_partial_hours:
  "calculate_derived_fields example_library partial_hours_filled = Inr partial_hours_processed"
proof -
  let ?d2 = "set_column partial_hours_filled (Txt ''month_year'') [Str ''1970-01'', Str ''1970-01'']"
  let ?d3 = "set_column ?d2 (Txt ''week_year'') [Str ''1970-W00'', Str ''1970-W00'']"
  have a: "derive_resolution_time partial_hours_filled = Inr partial_hours_filled" by code_simp
  have b: "derive_bucket partial_hours_filled ''month_year'' (strftime example_library ''%Y-%m'') =
             Inr ?d2"
    by code_simp
  have c: "derive_bucket ?d2 ''week_year'' (strftime example_library ''%Y-W%U'') = Inr ?d3"
    by code_simp
  have d: "derive_is_overdue ?d3 = Inr partial_hours_processed" by code_simp
  show ?thesis by (simp add: calculate_derived_fields_def and_then_def a b c d)
qed

lemma preprocess_partial_hours:
  "preprocess_data example_library \<lparr>raw_data = Some partial_hours, processed_data = None\<rparr> =
     (True, \<lparr>raw_data = Some partial_hours, processed_data = Some partial_hours_processed\<rparr>)"
proof -
  have a: "standardize_columns partial_hours = Inr partial_hours" by code_simp
  have b: "add_missing_columns example_library partial_hours = partial_hours_filled" by code_simp
  have c: "convert_date_columns example_library partial_hours_filled = Inr partial_hours_filled"
    by code_simp
  have "pipeline example_library partial_hours = Inr partial_hours_processed"
    by (simp add: pipeline_def and_then_def a b c derive_partial_hours)
  then show ?thesis by (simp add: preprocess_data_def)
qed

text \<open>
  Claim C6 as stated fails on a record whose cell of a supplied \<open>resolution_time\<close>
  column is blank: preprocessing answers True, the second record has both dates, six hours
  apart, no resolution time from the source, and its resolution time stays missing.
\<close>

theorem resolution_time_blank_cell_counterexample:
  "preprocess_data example_library \<lparr>raw_data = Some partial_hours, processed_data = None\<rparr> =
     (True, \<lparr>raw_data = Some partial_hours, processed_data = Some partial_hours_processed\<rparr>) \<and>
   columns_named partial_hours (Txt ''resolution_time'') = [[Num 5, Null]] \<and>
   columns_named partial_hours_processed (Txt ''created_date'') = [[Time 0, Time 0]] \<and>
   columns_named partial_hours_processed (Txt ''resolved_date'') =
     [[Time 18000000000000, Time 21600000000000]] \<and>
   columns_named partial_hours_processed (Txt ''resolution_time'') = [[Num 5, Null]]"
proof -
  have "columns_named partial_hours (Txt ''resolution_time'') = [[Num 5, Null]]"
    "columns_named partial_hours_processed (Txt ''created_date'') = [[Time 0, Time 0]]"
    "columns_named partial_hours_processed (Txt ''resolved_date'') =
       [[Time 18000000000000, Time 21600000000000]]"
    "columns_named partial_hours_processed (Txt ''resolution_time'') = [[Num 5, Null]]"
    by code_simp+
  with preprocess_partial_hours show ?thesis by simp
qed

theorem resolution_time_is_elapsed_hours_witness:
  "well_formed ticket_export \<and> length_preserving example_library \<and>
   Txt ''resolution_time'' \<notin> set (labels ticket_mapped) \<and>
   (\<exists>hours. columns_named ticket_processed (Txt ''resolution_time'') = [hours] \<and>
            hours ! 0 = Num 30)"
proof -
  have absent: "Txt ''resolution_time'' \<notin> set (labels ticket_mapped)"
    by (simp add: ticket_mapped_def labels_def)
  have raw: "raw_data \<lparr>raw_data = Some ticket_export, processed_data = None\<rparr> = Some ticket_export"
    by simp
  from resolution_time_is_elapsed_hours
    [OF preprocess_ticket raw standardize_ticket well_formed_ticket length_preserving_example]
    absent
  obtain created resolved hours where
    w: "columns_named ticket_processed (Txt ''created_date'') = [created]"
       "columns_named ticket_processed (Txt ''resolved_date'') = [resolved]"
       "columns_named ticket_processed (Txt ''resolution_time'') = [hours]"
       "\<forall>i c r. i < nrows ticket_processed \<and> created ! i = Time c \<and> resolved ! i = Time r \<longrightarrow>
                  hours ! i = Num (real_of_int (r - c) / 3600000000000)"
    by auto
  have "columns_named ticket_processed (Txt ''created_date'') = [[Time 0, Time 0]]"
    "columns_named ticket_processed (Txt ''resolved_date'') = [[Time 108000000000000, Null]]"
    by code_simp+
  with w(1,2) have "created = [Time 0, Time 0]" "resolved = [Time 108000000000000, Null]"
    by simp_all
  then have "created ! 0 = Time 0" "resolved ! 0 = Time 108000000000000" by simp_all
  moreover have "0 < nrows ticket_processed" by (simp add: ticket_processed_def)
  ultimately have "hours ! 0 = Num (real_of_int (108000000000000 - 0) / 3600000000000)"
    using w(4) by blast
  then have "hours ! 0 = Num 30" by simp
  with w(3) absent well_formed_ticket length_preserving_example show ?thesis by blast
qed

theorem is_overdue_iff_over_24_witness:
  "(\<exists>raw. raw_data \<lparr>raw_data = Some ticket_export, processed_data = None\<rparr> = Some raw \<and>
          well_formed raw) \<and>
   length_preserving example_library \<and>
   (\<exists>hours.
      columns_named ticket_processed (Txt ''resolution_time'') = [hours] \<and>
      length hours = nrows ticket_processed \<and>
      columns_named ticket_processed (Txt ''is_overdue'') \<noteq> [] \<and>
      (\<forall>flags \<in> set (columns_named ticket_processed (Txt ''is_overdue'')).
         length flags = nrows ticket_processed \<and>
         (\<forall>i < nrows ticket_processed.
            (flags ! i = Bool True \<longleftrightarrow> (\<exists>x. hours ! i = Num x \<and> 24 < x)) \<and>
            (flags ! i = Bool True \<or> flags ! i = Bool False))) \<and>
      get_data_summary \<lparr>raw_data = Some ticket_export, processed_data = Some ticket_processed\<rparr> =
        Inr (Some \<lparr>total_incidents = nrows ticket_processed,
                   overdue_incidents =
                     card {i. i < nrows ticket_processed \<and> (\<exists>x. hours ! i = Num x \<and> 24 < x)}\<rparr>))"
proof -
  have wf: "\<exists>raw. raw_data \<lparr>raw_data = Some ticket_export, processed_data = None\<rparr> = Some raw \<and>
                 well_formed raw"
    using well_formed_ticket by simp
  from is_overdue_iff_over_24 [OF preprocess_ticket wf length_preserving_example] wf
    length_preserving_example
  show ?thesis by simp
qed


section \<open>Loading files: properties\<close>

lemma parsed_simps:
  "parsed [] = []"
  "parsed (f # fs) = (case sheet f of None \<Rightarrow> parsed fs | Some df \<Rightarrow> (name f, df) # parsed fs)"
  by (simp_all add: parsed_def map_filter_simps split: option.splits)

lemma load_all_parsed: "load_all files = map (\<lambda>(n, df). tag_source df n) (parsed files)"
  by (induction files) (simp_all add: parsed_simps split: option.splits)

lemma parsed_sheet: "(n, df) \<in> set (parsed files) \<Longrightarrow> \<exists>f \<in> set files. sheet f = Some df \<and> name f = n"
  by (induction files) (auto simp: parsed_simps split: option.splits)

lemma tag_source_nrows [simp]: "nrows (tag_source df n) = nrows df"
  by (simp add: tag_source_def)

lemma tag_source_labels:
  "set (labels (tag_source df n)) = insert (Txt ''source_file'') (set (labels df))"
  "distinct (labels df) \<Longrightarrow> distinct (labels (tag_source df n))"
  by (auto simp: tag_source_def labels_set_column)

lemma tag_source_column:
  "column_or_nulls (tag_source df n) l =
     (if l = Txt ''source_file'' then replicate (nrows df) (Str n) else column_or_nulls df l)"
proof (cases "l = Txt ''source_file''")
  case False
  then show ?thesis
    by (simp add: column_or_nulls_def tag_source_def columns_named_set_column_other
             split: list.splits)
next
  case True
  have "columns_named df l \<noteq> []" if "l \<in> set (labels df)"
    using that by (simp add: columns_named_empty)
  then show ?thesis
    using True
    by (cases "columns_named df (Txt ''source_file'')")
       (auto simp: column_or_nulls_def tag_source_def columns_named_set_column_same)
qed

lemma first_seen_set [simp]: "set (first_seen xs) = set xs"
  by (simp add: first_seen_def)

lemma first_seen_distinct [simp]: "distinct (first_seen xs)"
  by (simp add: first_seen_def)

lemma columns_named_tabulated:
  assumes "distinct ls" "l \<in> set ls"
  shows "columns_named \<lparr>nrows = n, cols = map (\<lambda>k. (k, g k)) ls\<rparr> l = [g l]"
proof -
  have "map snd (filter (\<lambda>kc. fst kc = l) (map (\<lambda>k. (k, g k)) ls)) = [g l]"
    using assms by (induction ls) (auto simp: filter_empty_conv)
  then show ?thesis by (simp add: columns_named_def)
qed

lemma concat_frames_result:
  assumes "dfs \<noteq> []" "\<forall>df \<in> set dfs. distinct (labels df)"
  shows "\<exists>combined. concat_frames dfs = Inr combined \<and>
           nrows combined = sum_list (map nrows dfs) \<and>
           labels combined = first_seen (concat (map labels dfs)) \<and>
           (\<forall>l \<in> set (labels combined).
              columns_named combined l = [concat (map (\<lambda>df. column_or_nulls df l) dfs)])"
proof -
  let ?ls = "first_seen (concat (map labels dfs))"
  let ?c = "\<lparr>nrows = sum_list (map nrows dfs),
             cols = map (\<lambda>l. (l, concat (map (\<lambda>df. column_or_nulls df l) dfs))) ?ls\<rparr>"
  have "concat_frames dfs = Inr ?c"
    using assms by (simp add: concat_frames_def list_all_iff)
  moreover have "labels ?c = ?ls" by (simp add: labels_def comp_def)
  moreover have "columns_named ?c l = [concat (map (\<lambda>df. column_or_nulls df l) dfs)]"
    if "l \<in> set ?ls" for l
    using columns_named_tabulated [OF first_seen_distinct that] .
  ultimately show ?thesis by auto
qed

text \<open>
  Claim C8, as the code has it. Let every sheet read have distinct labels. Files that fail
  to parse are skipped and the others are loaded, whatever their position. When no file
  parses, \<open>load_excel_files\<close> returns False and assigns nothing: the processor is as it
  was, so its combined data is absent only if none was loaded before. When at least one
  file parses it returns True and stores the combined table: the rows of the parsed files
  below one another in upload order, every row carrying the name of its file in
  \<open>source_file\<close>, every other column holding the cells of the files that have it and
  missing values on the rows of those that do not.
\<close>

theorem load_excel_files_outcome:
  assumes "\<forall>f \<in> set uploaded_files. \<forall>df. sheet f = Some df \<longrightarrow> distinct (labels df)"
  shows "(parsed uploaded_files = [] \<longrightarrow>
            load_excel_files self uploaded_files = Inr (False, self)) \<and>
         (parsed uploaded_files \<noteq> [] \<longrightarrow>
            (\<exists>combined.
               load_excel_files self uploaded_files = Inr (True, self\<lparr>raw_data := Some combined\<rparr>) \<and>
               nrows combined = sum_list (map (\<lambda>(n, df). nrows df) (parsed uploaded_files)) \<and>
               distinct (labels combined) \<and>
               set (labels combined) =
                 insert (Txt ''source_file'') (\<Union>(n, df) \<in> set (parsed uploaded_files). set (labels df)) \<and>
               columns_named combined (Txt ''source_file'') =
                 [concat (map (\<lambda>(n, df). replicate (nrows df) (Str n)) (parsed uploaded_files))] \<and>
               (\<forall>l \<in> set (labels combined). l \<noteq> Txt ''source_file'' \<longrightarrow>
                  columns_named combined l =
                    [concat (map (\<lambda>(n, df). column_or_nulls df l) (parsed uploaded_files))])))"
proof (intro conjI impI)
  assume "parsed uploaded_files = []"
  then show "load_excel_files self uploaded_files = Inr (False, self)"
    by (simp add: load_excel_files_def load_all_parsed)
next
  let ?ok = "parsed uploaded_files"
  let ?dfs = "load_all uploaded_files"
  assume ne: "?ok \<noteq> []"
  then have ne': "?dfs \<noteq> []" by (simp add: load_all_parsed)
  have "\<forall>df \<in> set ?dfs. distinct (labels df)"
    using assms parsed_sheet [of _ _ uploaded_files]
    by (fastforce simp: load_all_parsed tag_source_labels(2))
  from concat_frames_result [OF ne' this] obtain combined where
    c: "concat_frames ?dfs = Inr combined"
       "nrows combined = sum_list (map nrows ?dfs)"
       "labels combined = first_seen (concat (map labels ?dfs))"
       "\<forall>l \<in> set (labels combined).
           columns_named combined l = [concat (map (\<lambda>df. column_or_nulls df l) ?dfs)]"
    by blast
  have run: "load_excel_files self uploaded_files = Inr (True, self\<lparr>raw_data := Some combined\<rparr>)"
    using ne' c(1) by (simp add: load_excel_files_def)
  have n: "nrows combined = sum_list (map (\<lambda>(n, df). nrows df) ?ok)"
    using c(2) by (simp add: load_all_parsed comp_def case_prod_unfold)
  have d: "distinct (labels combined)" using c(3) by simp
  have s: "set (labels combined) = insert (Txt ''source_file'') (\<Union>(n, df) \<in> set ?ok. set (labels df))"
    using ne c(3) by (cases ?ok) (auto simp: load_all_parsed tag_source_labels(1))
  have col: "concat (map (\<lambda>df. column_or_nulls df l) ?dfs) =
               (if l = Txt ''source_file''
                then concat (map (\<lambda>(n, df). replicate (nrows df) (Str n)) ?ok)
                else concat (map (\<lambda>(n, df). column_or_nulls df l) ?ok))" for l
    by (simp add: load_all_parsed comp_def case_prod_unfold tag_source_column)
  have tag: "columns_named combined (Txt ''source_file'') =
               [concat (map (\<lambda>(n, df). replicate (nrows df) (Str n)) ?ok)]"
    using c(4) s col [of "Txt ''source_file''"] by simp
  have rest: "\<forall>l \<in> set (labels combined). l \<noteq> Txt ''source_file'' \<longrightarrow>
                columns_named combined l = [concat (map (\<lambda>(n, df). column_or_nulls df l) ?ok)]"
    using c(4) col by simp
  from run n d s tag rest
  show "\<exists>combined.
               load_excel_files self uploaded_files = Inr (True, self\<lparr>raw_data := Some combined\<rparr>) \<and>
               nrows combined = sum_list (map (\<lambda>(n, df). nrows df) ?ok) \<and>
               distinct (labels combined) \<and>
               set (labels combined) =
                 insert (Txt ''source_file'') (\<Union>(n, df) \<in> set ?ok. set (labels df)) \<and>
               columns_named combined (Txt ''source_file'') =
                 [concat (map (\<lambda>(n, df). replicate (nrows df) (Str n)) ?ok)] \<and>
               (\<forall>l \<in> set (labels combined). l \<noteq> Txt ''source_file'' \<longrightarrow>
                  columns_named combined l =
                    [concat (map (\<lambda>(n, df). column_or_nulls df l) ?ok)])"
    by blast
qed


lemma load_excel_files_new_processor:
  assumes "parsed uploaded_files = []"
  shows "load_excel_files new_processor uploaded_files = Inr (False, new_processor)"
    and "raw_data new_processor = None"
  using assms by (simp_all add: load_excel_files_def load_all_parsed new_processor_def)

text \<open>
  Claim C8 as stated fails on a processor that holds an earlier load: a new load in which
  no file parses returns False and the combined data of the earlier load is still there.
\<close>

theorem load_excel_files_stale_counterexample:
  "load_excel_files \<lparr>raw_data = Some ticket_export, processed_data = Some ticket_processed\<rparr>
     [\<lparr>name = ''broken.xlsx'', sheet = None\<rparr>] =
   Inr (False, \<lparr>raw_data = Some ticket_export, processed_data = Some ticket_processed\<rparr>)"
  by (simp add: load_excel_files_def)

lemma parsed_example_uploads:
  "parsed example_uploads = [(''a.xlsx'', sheet_a), (''b.xlsx'', sheet_b)]"
  by (simp add: example_uploads_def parsed_simps)

theorem load_excel_files_outcome_witness:
  "parsed example_uploads \<noteq> [] \<and>
   (\<exists>combined.
      load_excel_files new_processor example_uploads =
        Inr (True, new_processor\<lparr>raw_data := Some combined\<rparr>) \<and>
      nrows combined = 3 \<and>
      columns_named combined (Txt ''source_file'') =
        [[Str ''a.xlsx'', Str ''b.xlsx'', Str ''b.xlsx'']])"
proof -
  have h: "\<forall>f \<in> set example_uploads. \<forall>df. sheet f = Some df \<longrightarrow> distinct (labels df)"
    by (simp add: example_uploads_def sheet_a_def sheet_b_def labels_def)
  have ne: "parsed example_uploads \<noteq> []" by (simp add: parsed_example_uploads)
  have n: "nrows sheet_a = 1" "nrows sheet_b = 2" by (simp_all add: sheet_a_def sheet_b_def)
  from load_excel_files_outcome [OF h, of new_processor] ne obtain combined where
    c: "load_excel_files new_processor example_uploads =
          Inr (True, new_processor\<lparr>raw_data := Some combined\<rparr>)"
       "nrows combined = sum_list (map (\<lambda>(n, df). nrows df) (parsed example_uploads))"
       "columns_named combined (Txt ''source_file'') =
          [concat (map (\<lambda>(n, df). replicate (nrows df) (Str n)) (parsed example_uploads))]"
    by blast
  from c(2) n have "nrows combined = 3" by (simp add: parsed_example_uploads)
  moreover from c(3) n have "columns_named combined (Txt ''source_file'') =
        [[Str ''a.xlsx'', Str ''b.xlsx'', Str ''b.xlsx'']]"
    by (simp add: parsed_example_uploads numeral_2_eq_2)
  ultimately show ?thesis using c(1) ne by blast
qed

section \<open>The analyzers: properties\<close>

lemma starts_with_iff: "starts_with p s \<longleftrightarrow> (\<exists>after. s = p @ after)"
  by (induction p s rule: starts_with.induct) auto

lemma occurs_in_iff: "occurs_in p s \<longleftrightarrow> (\<exists>before after. s = before @ p @ after)"
proof (induction s)
  case Nil
  then show ?case by auto
next
  case (Cons c cs)
  show ?case
  proof
    assume "occurs_in p (c # cs)"
    then consider "starts_with p (c # cs)" | "occurs_in p cs" by auto
    then show "\<exists>before after. c # cs = before @ p @ after"
    proof cases
      case 1
      then obtain after where "c # cs = p @ after" by (auto simp: starts_with_iff)
      then have "c # cs = [] @ p @ after" by simp
      then show ?thesis by blast
    next
      case 2
      with Cons.IH obtain before after where "cs = before @ p @ after" by auto
      then have "c # cs = (c # before) @ p @ after" by simp
      then show ?thesis by blast
    qed
  next
    assume "\<exists>before after. c # cs = before @ p @ after"
    then obtain before after where e: "c # cs = before @ p @ after" by blast
    show "occurs_in p (c # cs)"
    proof (cases before)
      case Nil
      with e have "starts_with p (c # cs)" by (auto simp: starts_with_iff)
      then show ?thesis by simp
    next
      case (Cons b bs)
      with e have "cs = bs @ p @ after" by simp
      with Cons.IH have "occurs_in p cs" by blast
      then show ?thesis by simp
    qed
  qed
qed

lemma str_contains_iff: "str_contains pat v \<longleftrightarrow> contains_ignoring_case pat v"
  by (cases v) (auto simp: str_contains_def contains_ignoring_case_def occurs_in_iff)

lemma calculate_tech_debt_indicators_empty:
  "calculate_tech_debt_indicators (Some []) =
     Inr \<lparr>total_debt_percentage = 0, debt_by_team = [], debt_trend = [], debt_incidents = []\<rparr>"
  by (simp add: calculate_tech_debt_indicators_def identify_tech_debt_incidents_def)

lemma analyzers_absent_or_empty:
  "get_top_recurring_issues sv None n = None" "get_top_recurring_issues sv (Some []) n = None"
  "analyze_sla_performance None = None" "analyze_sla_performance (Some []) = None"
  "analyze_team_trends None = None" "analyze_team_trends (Some []) = None"
  "get_team_performance_summary None = None" "get_team_performance_summary (Some []) = None"
  "identify_tech_debt_incidents None = []" "identify_tech_debt_incidents (Some []) = []"
  "get_monthly_trends None = None" "get_monthly_trends (Some []) = None"
  by (simp_all add: get_top_recurring_issues_def analyze_sla_performance_def
        analyze_team_trends_def get_team_performance_summary_def
        identify_tech_debt_incidents_def get_monthly_trends_def)

text \<open>
  Claim C3. Every analyzer operation modelled above answers an absent or empty table with
  an absent or empty result, except one: \<open>calculate_tech_debt_indicators\<close> on an absent
  table. \<open>identify_tech_debt_incidents\<close>, which it calls first, has the guard and returns
  the empty table; the next statement, \<open>len(self.data)\<close>, has none and raises TypeError.
\<close>

theorem calculate_tech_debt_indicators_absent_raises:
  "calculate_tech_debt_indicators None = Inl TypeError"
  by (simp add: calculate_tech_debt_indicators_def)

lemma sla_entry_priority: "row \<in> set (sla_entry ds pt) \<Longrightarrow> Priority row = fst pt"
  by (auto simp: sla_entry_def Let_def split: if_splits)

lemma sla_rows_for_label:
  assumes "distinct (map fst table)" "(label, threshold) \<in> set table"
  shows "filter (\<lambda>row. Priority row = label) (concat (map (sla_entry ds) table)) =
           sla_entry ds (label, threshold)"
  using assms
proof (induction table)
  case Nil
  then show ?case by simp
next
  case (Cons pt table)
  have own: "filter (\<lambda>row. Priority row = label) (sla_entry ds q) =
               (if fst q = label then sla_entry ds q else [])" for q
    using sla_entry_priority [of _ ds q] by (auto simp: filter_empty_conv filter_id_conv)
  show ?case
  proof (cases "pt = (label, threshold)")
    case True
    with Cons.prems(1) have "\<forall>q \<in> set table. fst q \<noteq> label" by auto
    then have "filter (\<lambda>row. Priority row = label) (concat (map (sla_entry ds) table)) = []"
      using sla_entry_priority by (fastforce simp: filter_empty_conv)
    with True own show ?thesis by simp
  next
    case False
    with Cons.prems have "(label, threshold) \<in> set table" "fst pt \<noteq> label"
      by (auto simp: rev_image_eqI)
    with Cons.IH Cons.prems(1) own show ?thesis by simp
  qed
qed

lemma sla_thresholds_distinct: "distinct (map fst sla_thresholds)"
  by code_simp

text \<open>
  Claim C5. For a table with at least one record and a label of the threshold table, take
  the records whose priority contains the label, letter case ignored. If there is such a
  record, the result has exactly one row for the label: its \<open>Total_Incidents\<close> is the
  number of these records, \<open>SLA_Met\<close> the number of them whose resolution time is a
  number not above the threshold, \<open>SLA_Percentage\<close> is \<open>SLA_Met / Total_Incidents * 100\<close>.
  If there is none, the result has no row for the label.
\<close>

theorem analyze_sla_performance_rows:
  assumes "ds \<noteq> []" and "(label, threshold) \<in> set sla_thresholds"
  shows "\<exists>rows matching met.
           analyze_sla_performance (Some ds) = Some rows \<and>
           matching = filter (\<lambda>r. contains_ignoring_case label (priority r)) ds \<and>
           met = length (filter (\<lambda>r. \<exists>x. resolution_time r = Some x \<and> x \<le> threshold) matching) \<and>
           filter (\<lambda>row. Priority row = label) rows =
             (if matching = [] then []
              else [\<lparr>Priority = label,
                     Total_Incidents = length matching,
                     SLA_Met = met,
                     SLA_Percentage = real met / real (length matching) * 100,
                     Avg_Resolution_Time = mean (map resolution_time matching),
                     SLA_Threshold = threshold\<rparr>])"
proof -
  have m: "meets threshold v \<longleftrightarrow> (\<exists>x. v = Some x \<and> x \<le> threshold)" for v
    by (cases v) (simp_all add: meets_def)
  have "analyze_sla_performance (Some ds) = Some (concat (map (sla_entry ds) sla_thresholds))"
    using assms(1) by (simp add: analyze_sla_performance_def)
  moreover have "filter (\<lambda>row. Priority row = label) (concat (map (sla_entry ds) sla_thresholds)) =
          sla_entry ds (label, threshold)"
    by (rule sla_rows_for_label [OF sla_thresholds_distinct assms(2)])
  ultimately show ?thesis
    by (simp add: sla_entry_def Let_def str_contains_iff m)
qed


lemma strftime_cell_missing:
  "datetime_cell c \<Longrightarrow> strftime_cell fmt c = Null \<longleftrightarrow> c = Null"
  by (cases c) simp_all

lemma map_filter_length:
  "length (List.map_filter key rows) = length (filter (\<lambda>r. key r \<noteq> None) rows)"
  by (induction rows) (auto simp: map_filter_simps split: option.splits)

lemma group_rows_count:
  "length (group_rows key rows k) = count_list (List.map_filter key rows) k"
  by (induction rows) (auto simp: group_rows_def map_filter_simps split: option.splits)

lemma group_keys_set [simp]: "set (group_keys key rows) = set (List.map_filter key rows)"
  by (simp add: group_keys_def)

lemma group_keys_distinct [simp]: "distinct (group_keys key rows)"
  by (simp add: group_keys_def)

lemma map_filter_member:
  "k \<in> set (List.map_filter key rows) \<longleftrightarrow> (\<exists>r \<in> set rows. key r = Some k)"
  by (induction rows) (auto simp: map_filter_simps split: option.splits)

lemma group_keys_member: "k \<in> set (group_keys key rows) \<longleftrightarrow> (\<exists>r \<in> set rows. key r = Some k)"
  by (simp add: map_filter_member)

lemma group_total:
  assumes "set (List.map_filter key rows) \<subseteq> set ks" "distinct ks"
  shows "sum_list (map (\<lambda>k. length (group_rows key rows k)) ks) =
           length (filter (\<lambda>r. key r \<noteq> None) rows)"
proof -
  have "sum_list (map (\<lambda>k. length (group_rows key rows k)) ks) =
          sum (count_list (List.map_filter key rows)) (set ks)"
    using assms(2) by (simp add: sum_list_distinct_conv_sum_set group_rows_count)
  also have "\<dots> = length (List.map_filter key rows)"
    using assms(1) by (rule sum_count_set) simp
  finally show ?thesis by (simp add: map_filter_length)
qed

lemma group_sizes_total:
  "sum_list (map snd (group_sizes key rows)) = length (filter (\<lambda>r. key r \<noteq> None) rows)"
  using group_total [of key rows "group_keys key rows"]
  by (simp add: group_sizes_def comp_def)

lemma group_sizes_member:
  "(k, n) \<in> set (group_sizes key rows) \<Longrightarrow>
     (\<exists>r \<in> set rows. key r = Some k) \<and> n = length (filter (\<lambda>r. key r = Some k) rows)"
  by (auto simp: group_sizes_def group_rows_def map_filter_member)

lemma count_cells_group:
  "count_cells (map incident_id (group_rows key rows k)) =
     length (group_rows key (filter (\<lambda>r. incident_id r \<noteq> Null) rows) k)"
  by (induction rows) (auto simp: count_cells_def group_rows_def)

lemma team_month_key_Some:
  "team_month_key r = Some (t, m) \<longleftrightarrow> assigned_team r = Some t \<and> month_year r = Some m"
  by (auto simp: team_month_key_def split: option.splits)

lemma team_month_key_None:
  "team_month_key r \<noteq> None \<longleftrightarrow> assigned_team r \<noteq> None \<and> month_year r \<noteq> None"
  by (auto simp: team_month_key_def split: option.splits)

lemma team_trends_total:
  "sum_list (map (\<lambda>k. trend_total_incidents (team_trend_row ds k)) (group_keys team_month_key ds)) =
     length (filter (\<lambda>r. assigned_team r \<noteq> None \<and> month_year r \<noteq> None \<and> incident_id r \<noteq> Null) ds)"
proof -
  let ?ds' = "filter (\<lambda>r. incident_id r \<noteq> Null) ds"
  have "set (List.map_filter team_month_key ?ds') \<subseteq> set (group_keys team_month_key ds)"
    by (auto simp: map_filter_member)
  from group_total [OF this group_keys_distinct]
  have "sum_list (map (\<lambda>k. length (group_rows team_month_key ?ds' k)) (group_keys team_month_key ds)) =
          length (filter (\<lambda>r. team_month_key r \<noteq> None) ?ds')" .
  moreover have "trend_total_incidents (team_trend_row ds k) =
                   length (group_rows team_month_key ?ds' k)" for k
    by (simp add: team_trend_row_def Let_def count_cells_group)
  moreover have "filter (\<lambda>r. team_month_key r \<noteq> None) ?ds' =
          filter (\<lambda>r. assigned_team r \<noteq> None \<and> month_year r \<noteq> None \<and> incident_id r \<noteq> Null) ds"
    unfolding filter_filter by (rule filter_cong) (auto simp: team_month_key_Some)
  ultimately show ?thesis by (simp only:)
qed

lemma length_filter_less:
  "x \<in> set xs \<Longrightarrow> \<not> P x \<Longrightarrow> length (filter P xs) < length xs"
  by (induction xs) (auto simp: less_Suc_eq_le)


text \<open>
  Claim C10. Let the table hold a record whose \<open>month_year\<close> is missing (the pipeline
  derives the bucket from \<open>created_date\<close>, and a missing date gives a missing bucket:
  see \<open>strftime_cell_missing\<close>). Then the three results grouped by month exist, each of
  their rows belongs to a month and counts only records of that month (for team trends:
  with that team and an incident id; for the debt trend: among the tech debt records), and
  the counts of each result add up to less than the number of records of the table.
\<close>

theorem missing_month_excluded:
  assumes "r \<in> set ds" and "month_year r = None"
  shows "\<exists>team_rows month_rows indicators.
           analyze_team_trends (Some ds) = Some team_rows \<and>
           get_monthly_trends (Some ds) = Some month_rows \<and>
           calculate_tech_debt_indicators (Some ds) = Inr indicators \<and>
           (\<forall>row \<in> set team_rows.
              trend_total_incidents row =
                length (filter (\<lambda>x. assigned_team x = Some (trend_team row) \<and>
                                     month_year x = Some (trend_month row) \<and>
                                     incident_id x \<noteq> Null) ds)) \<and>
           (\<forall>(m, n) \<in> set month_rows. n = length (filter (\<lambda>x. month_year x = Some m) ds)) \<and>
           (\<forall>(m, n) \<in> set (debt_trend indicators).
              n = length (filter (\<lambda>x. tech_debt_mask x \<and> month_year x = Some m) ds)) \<and>
           sum_list (map trend_total_incidents team_rows) < length ds \<and>
           sum_list (map snd month_rows) < length ds \<and>
           sum_list (map snd (debt_trend indicators)) < length ds"
proof -
  from assms(1) have ne: "ds \<noteq> []" by auto
  let ?team_rows = "map (team_trend_row ds) (group_keys team_month_key ds)"
  let ?month_rows = "group_sizes month_year ds"
  let ?tech = "filter tech_debt_mask ds"
  let ?trend = "if ?tech \<noteq> [] then group_sizes month_year ?tech else []"
  obtain indicators where
    ind: "calculate_tech_debt_indicators (Some ds) = Inr indicators"
         "debt_trend indicators = ?trend"
    using ne by (simp add: calculate_tech_debt_indicators_def identify_tech_debt_incidents_def Let_def)
  have t: "analyze_team_trends (Some ds) = Some ?team_rows"
    using ne by (simp add: analyze_team_trends_def)
  have m: "get_monthly_trends (Some ds) = Some ?month_rows"
    using ne by (simp add: get_monthly_trends_def)
  have t_row: "\<forall>row \<in> set ?team_rows.
              trend_total_incidents row =
                length (filter (\<lambda>x. assigned_team x = Some (trend_team row) \<and>
                                     month_year x = Some (trend_month row) \<and>
                                     incident_id x \<noteq> Null) ds)"
  proof
    fix row assume "row \<in> set ?team_rows"
    then obtain k where k: "row = team_trend_row ds k" by auto
    obtain a b where ab: "k = (a, b)" by (cases k)
    have "filter (\<lambda>x. incident_id x \<noteq> Null) (filter (\<lambda>x. team_month_key x = Some (a, b)) ds) =
          filter (\<lambda>x. assigned_team x = Some a \<and> month_year x = Some b \<and> incident_id x \<noteq> Null) ds"
      unfolding filter_filter by (rule filter_cong) (auto simp: team_month_key_Some)
    then show "trend_total_incidents row =
                length (filter (\<lambda>x. assigned_team x = Some (trend_team row) \<and>
                                     month_year x = Some (trend_month row) \<and>
                                     incident_id x \<noteq> Null) ds)"
      by (simp add: k ab team_trend_row_def Let_def count_cells_def group_rows_def filter_map comp_def)
  qed
  have m_row: "\<forall>(m, n) \<in> set ?month_rows. n = length (filter (\<lambda>x. month_year x = Some m) ds)"
    using group_sizes_member [of _ _ month_year ds] by auto
  have d_row: "\<forall>(m, n) \<in> set ?trend.
              n = length (filter (\<lambda>x. tech_debt_mask x \<and> month_year x = Some m) ds)"
    using group_sizes_member [of _ _ month_year ?tech]
    by (auto simp: conj_commute)
  have "sum_list (map trend_total_incidents ?team_rows) =
          length (filter (\<lambda>x. assigned_team x \<noteq> None \<and> month_year x \<noteq> None \<and> incident_id x \<noteq> Null) ds)"
    using team_trends_total [of ds] by (simp add: comp_def)
  also have "\<dots> < length ds"
    using assms by (intro length_filter_less [of r]) simp_all
  finally have t_sum: "sum_list (map trend_total_incidents ?team_rows) < length ds" .
  have "sum_list (map snd ?month_rows) = length (filter (\<lambda>x. month_year x \<noteq> None) ds)"
    by (rule group_sizes_total)
  also have "\<dots> < length ds"
    using assms by (intro length_filter_less [of r]) simp_all
  finally have m_sum: "sum_list (map snd ?month_rows) < length ds" .
  have "sum_list (map snd ?trend) \<le> length (filter (\<lambda>x. month_year x \<noteq> None) ?tech)"
    by (simp add: group_sizes_total del: filter_filter)
  also have "\<dots> = length (filter (\<lambda>x. tech_debt_mask x \<and> month_year x \<noteq> None) ds)"
    by (simp add: conj_commute)
  also have "\<dots> < length ds"
    using assms by (intro length_filter_less [of r]) simp_all
  finally have d_sum: "sum_list (map snd ?trend) < length ds" .
  from t m ind t_row m_row d_row t_sum m_sum d_sum show ?thesis
    by (intro exI [of _ ?team_rows] exI [of _ ?month_rows] exI [of _ indicators]) simp
qed


lemma scenario_B:
  "analyze_sla_performance (Some [critical_five]) =
     Some [\<lparr>Priority = ''Critical'', Total_Incidents = 1, SLA_Met = 0, SLA_Percentage = 0,
            Avg_Resolution_Time = Some 5, SLA_Threshold = 4\<rparr>]"
proof -
  have "concat (map (sla_entry [critical_five]) sla_thresholds) =
          [\<lparr>Priority = ''Critical'', Total_Incidents = 1, SLA_Met = 0, SLA_Percentage = 0,
            Avg_Resolution_Time = Some 5, SLA_Threshold = 4\<rparr>]"
    by code_simp
  then show ?thesis by (simp add: analyze_sla_performance_def)
qed

theorem analyze_sla_performance_rows_witness:
  "[critical_five] \<noteq> [] \<and> (''Critical'', 4) \<in> set sla_thresholds \<and>
   (\<exists>rows. analyze_sla_performance (Some [critical_five]) = Some rows \<and>
      filter (\<lambda>row. Priority row = ''Critical'') rows =
        [\<lparr>Priority = ''Critical'', Total_Incidents = 1, SLA_Met = 0, SLA_Percentage = 0,
          Avg_Resolution_Time = Some 5, SLA_Threshold = 4\<rparr>])"
proof -
  have h1: "[critical_five] \<noteq> []" by simp
  have h2: "(''Critical'', 4) \<in> set sla_thresholds" by (simp add: sla_thresholds_def)
  have c: "contains_ignoring_case ''Critical'' (priority critical_five)"
    unfolding str_contains_iff [symmetric] by code_simp
  have r: "resolution_time critical_five = Some 5" by (simp add: critical_five_def)
  from analyze_sla_performance_rows [OF h1 h2] obtain rows where
    rows: "analyze_sla_performance (Some [critical_five]) = Some rows"
      "filter (\<lambda>row. Priority row = ''Critical'') rows =
         [\<lparr>Priority = ''Critical'', Total_Incidents = 1, SLA_Met = 0, SLA_Percentage = 0,
           Avg_Resolution_Time = Some 5, SLA_Threshold = 4\<rparr>]"
    using c r by (auto simp: mean_def map_filter_simps)
  with h1 h2 show ?thesis by blast
qed

lemma monthly_trends_example:
  "get_monthly_trends (Some [dated, undated]) = Some [(''2024-01'', 1)]"
proof -
  have "group_sizes month_year [dated, undated] = [(''2024-01'', 1)]" by code_simp
  then show ?thesis by (simp add: get_monthly_trends_def)
qed

theorem missing_month_excluded_witness:
  "undated \<in> set [dated, undated] \<and> month_year undated = None \<and>
   (\<exists>team_rows month_rows indicators.
      analyze_team_trends (Some [dated, undated]) = Some team_rows \<and>
      get_monthly_trends (Some [dated, undated]) = Some month_rows \<and>
      calculate_tech_debt_indicators (Some [dated, undated]) = Inr indicators \<and>
      sum_list (map trend_total_incidents team_rows) < 2 \<and>
      sum_list (map snd month_rows) < 2 \<and>
      sum_list (map snd (debt_trend indicators)) < 2)"
proof -
  have h1: "undated \<in> set [dated, undated]" by simp
  have h2: "month_year undated = None" by (simp add: undated_def)
  from missing_month_excluded [OF h1 h2] obtain team_rows month_rows indicators where
    "analyze_team_trends (Some [dated, undated]) = Some team_rows"
    "get_monthly_trends (Some [dated, undated]) = Some month_rows"
    "calculate_tech_debt_indicators (Some [dated, undated]) = Inr indicators"
    "sum_list (map trend_total_incidents team_rows) < length [dated, undated]"
    "sum_list (map snd month_rows) < length [dated, undated]"
    "sum_list (map snd (debt_trend indicators)) < length [dated, undated]"
    by blast
  then show ?thesis using h1 h2 by auto
qed

section \<open>Recurring issues: properties\<close>

lemma map_filter_id_set: "x \<in> set (List.map_filter id vs) \<longleftrightarrow> Some x \<in> set vs"
  by (induction vs) (auto simp: map_filter_simps split: option.splits)

lemma map_filter_id_count: "count_list (List.map_filter id vs) x = count_list vs (Some x)"
  by (induction vs) (auto simp: map_filter_simps split: option.splits)

lemma mode_values_set:
  "set (mode_values vs) = {t. most_frequent t vs}"
proof -
  have "count_list vs (Some u) \<le> count_list vs (Some t)"
    if "\<forall>y. Some y \<in> set vs \<longrightarrow> count_list vs (Some y) \<le> count_list vs (Some t)" for u t
  proof (cases "Some u \<in> set vs")
    case True
    with that show ?thesis by blast
  next
    case False
    then show ?thesis by (simp add: count_list_0_iff)
  qed
  then show ?thesis
    by (auto simp: mode_values_def most_frequent_def Let_def list_all_iff
          map_filter_id_set map_filter_id_count)
qed

lemma most_frequent_exists:
  assumes "Some x \<in> set vs"
  shows "\<exists>t. most_frequent t vs"
proof -
  let ?S = "{t. Some t \<in> set vs}"
  have fin: "finite ?S"
  proof -
    have "?S \<subseteq> the ` set vs" by force
    then show ?thesis by (rule finite_subset) simp
  qed
  have ne: "?S \<noteq> {}" using assms by blast
  let ?c = "\<lambda>t. count_list vs (Some t)"
  have "Max (?c ` ?S) \<in> ?c ` ?S"
    using fin ne by (intro Max_in) auto
  then obtain t where t: "t \<in> ?S" "?c t = Max (?c ` ?S)"
    by (metis (mono_tags, lifting) imageE)
  have "?c u \<le> ?c t" for u
  proof (cases "u \<in> ?S")
    case True
    then show ?thesis using t(2) fin by simp
  next
    case False
    then show ?thesis by (simp add: count_list_0_iff)
  qed
  with t(1) show ?thesis by (auto simp: most_frequent_def)
qed

lemma most_common_team_result:
  assumes "Some x \<in> set vs"
  shows "\<exists>t. most_common_team vs = Inr t \<and> most_frequent t vs \<and>
             (\<forall>u. most_frequent u vs \<longrightarrow> t \<le> u)"
proof -
  from most_frequent_exists [OF assms] have "set (mode_values vs) \<noteq> {}"
    by (simp add: mode_values_set)
  then obtain m rest where m: "mode_values vs = m # rest"
    by (cases "mode_values vs") auto
  have "sorted (mode_values vs)" by (simp add: mode_values_def Let_def)
  with m have "\<forall>u \<in> set (mode_values vs). m \<le> u" by auto
  moreover have "m \<in> set (mode_values vs)" using m by simp
  moreover have "vs \<noteq> []" using assms by auto
  ultimately have "most_common_team vs = Inr m" "most_frequent m vs"
    "\<forall>u. most_frequent u vs \<longrightarrow> m \<le> u"
    using m mode_values_set [of vs] by (auto simp: most_common_team_def)
  then show ?thesis by blast
qed


lemma issue_key_Some:
  "issue_key r = Some k \<longleftrightarrow> category r = Some (fst k) \<and> title r = Some (snd k)"
  by (cases k) (auto simp: issue_key_def split: option.splits)

lemma group_rows_issue: "group_rows issue_key ds k = issue_group ds k"
  by (simp add: group_rows_def issue_group_def issue_key_Some)

lemma issue_keys_member: "k \<in> set (group_keys issue_key ds) \<longleftrightarrow> issue_group ds k \<noteq> []"
  by (auto simp: map_filter_member issue_group_def issue_key_Some filter_empty_conv)

lemma all_or_error_Inr:
  "\<forall>x \<in> set xs. f x = Inr (g x) \<Longrightarrow> all_or_error (map f xs) = Inr (map g xs)"
  by (induction xs) simp_all

lemma head_nonneg: "0 \<le> n \<Longrightarrow> head n xs = take (nat n) xs"
  by (simp add: head_def)

lemma descending_frequency_props:
  assumes "descending_frequency sort_values"
  shows "set (sort_values rows) = set rows"
    and "length (sort_values rows) = length rows"
    and "distinct (map key rows) \<Longrightarrow> distinct (map key (sort_values rows))"
    and "sorted_wrt (\<lambda>a b. frequency b \<le> frequency a) (sort_values rows)"
proof -
  from assms have c: "count_list (sort_values rows) x = count_list rows x" for x
    by (simp add: descending_frequency_def)
  show s: "set (sort_values rows) = set rows"
  proof (rule set_eqI)
    fix x
    have "x \<in> set (sort_values rows) \<longleftrightarrow> count_list (sort_values rows) x \<noteq> 0"
      by (simp add: count_list_0_iff)
    also have "\<dots> \<longleftrightarrow> count_list rows x \<noteq> 0" by (simp only: c)
    also have "\<dots> \<longleftrightarrow> x \<in> set rows" by (simp add: count_list_0_iff)
    finally show "x \<in> set (sort_values rows) \<longleftrightarrow> x \<in> set rows" .
  qed
  have "length (sort_values rows) = sum (count_list (sort_values rows)) (set (sort_values rows))"
    by (rule sum_count_set [symmetric]) simp_all
  also have "\<dots> = sum (count_list rows) (set rows)"
    unfolding s by (rule sum.cong) (simp_all add: c)
  also have "\<dots> = length rows" by (rule sum_count_set) simp_all
  finally show l: "length (sort_values rows) = length rows" .
  show "distinct (map key (sort_values rows))" if "distinct (map key rows)"
  proof (rule card_distinct)
    have "card (set (map key (sort_values rows))) = card (set (map key rows))"
      by (simp add: s)
    also have "\<dots> = length (map key rows)" using that by (rule distinct_card)
    finally show "card (set (map key (sort_values rows))) = length (map key (sort_values rows))"
      by (simp add: l)
  qed
  from assms show "sorted_wrt (\<lambda>a b. frequency b \<le> frequency a) (sort_values rows)"
    by (simp add: descending_frequency_def)
qed

lemma count_list_insort_key:
  "count_list (insort_key f y xs) x = count_list (y # xs) x"
  by (induction xs) auto

lemma count_list_sort_key: "count_list (sort_key f xs) x = count_list xs x"
  by (induction xs) (simp_all add: count_list_insort_key)

lemma example_sort_values_descending: "descending_frequency example_sort_values"
proof -
  have "sorted_wrt (\<lambda>a b. frequency b \<le> frequency a) (example_sort_values rows)" for rows
  proof -
    have "sorted (map (\<lambda>r. - int (frequency r)) (example_sort_values rows))"
      by (simp add: example_sort_values_def)
    then show ?thesis by (simp add: sorted_map sorted_wrt_iff_nth_less)
  qed
  then show ?thesis
    by (simp add: descending_frequency_def example_sort_values_def count_list_sort_key)
qed

lemma sorted_wrt_take_drop:
  assumes "sorted_wrt R xs" "x \<in> set (take m xs)" "y \<in> set (drop m xs)"
  shows "R x y"
proof -
  have "sorted_wrt R (take m xs @ drop m xs)" using assms(1) by simp
  with assms(2,3) show ?thesis unfolding sorted_wrt_append by blast
qed


text \<open>
  Claim C4, as the code has it. Take a table in which some record has both a category and
  a title and every group of records with the same category and title has at least one
  team that is not missing, and let \<open>n\<close> be non-negative. Then, whatever order the
  sort of pandas leaves among rows of equal frequency,
  \<open>get_top_recurring_issues\<close> returns a table with one row for each group among the
  \<open>n\<close> first in descending order of frequency: the frequency is the number of records of
  the group that have an incident id, the resolution time is the mean over the group, and
  the team is a most frequent team of the group, the least in the order of text among the
  most frequent ones (not the one met first). The rows are in descending order of frequency
  and no group left out is more frequent than a row of the result.
\<close>

theorem get_top_recurring_issues_result:
  assumes sorting: "descending_frequency sort_values"
    and some: "\<exists>k. issue_group ds k \<noteq> []"
    and teams: "\<forall>k. issue_group ds k \<noteq> [] \<longrightarrow>
                  (\<exists>r \<in> set (issue_group ds k). assigned_team r \<noteq> None)"
    and n: "0 \<le> n"
  shows "\<exists>rows.
           get_top_recurring_issues sort_values (Some ds) n = Some rows \<and>
           length rows = min (nat n) (card {k. issue_group ds k \<noteq> []}) \<and>
           distinct (map (\<lambda>row. (issue_category row, issue_title row)) rows) \<and>
           sorted_wrt (\<lambda>a b. frequency b \<le> frequency a) rows \<and>
           (\<forall>row \<in> set rows.
              issue_group ds (issue_category row, issue_title row) \<noteq> [] \<and>
              frequency row = issue_frequency ds (issue_category row, issue_title row) \<and>
              issue_resolution_time row =
                mean (map resolution_time (issue_group ds (issue_category row, issue_title row))) \<and>
              most_frequent (issue_assigned_team row)
                (map assigned_team (issue_group ds (issue_category row, issue_title row))) \<and>
              (\<forall>u. most_frequent u
                      (map assigned_team (issue_group ds (issue_category row, issue_title row))) \<longrightarrow>
                   issue_assigned_team row \<le> u)) \<and>
           (\<forall>k. issue_group ds k \<noteq> [] \<and>
                k \<notin> set (map (\<lambda>row. (issue_category row, issue_title row)) rows) \<longrightarrow>
                (\<forall>row \<in> set rows. issue_frequency ds k \<le> frequency row))"
proof -
  let ?ks = "group_keys issue_key ds"
  let ?key = "\<lambda>row. (issue_category row, issue_title row)"
  define team_of where "team_of k = hd (mode_values (map assigned_team (issue_group ds k)))" for k
  define row_of where
    "row_of k = \<lparr>issue_category = fst k, issue_title = snd k,
                 frequency = issue_frequency ds k,
                 issue_resolution_time = mean (map resolution_time (issue_group ds k)),
                 issue_assigned_team = team_of k\<rparr>" for k
  have key_row: "?key (row_of k) = k" for k by (simp add: row_of_def)
  have freq_row: "frequency (row_of k) = issue_frequency ds k" for k by (simp add: row_of_def)
  from some have ne: "ds \<noteq> []" by (auto simp: issue_group_def)
  have team: "most_common_team (map assigned_team (issue_group ds k)) = Inr (team_of k) \<and>
              most_frequent (team_of k) (map assigned_team (issue_group ds k)) \<and>
              (\<forall>u. most_frequent u (map assigned_team (issue_group ds k)) \<longrightarrow> team_of k \<le> u)"
    if "issue_group ds k \<noteq> []" for k
  proof -
    from teams that have "\<exists>r \<in> set (issue_group ds k). assigned_team r \<noteq> None"
      by blast
    then obtain r x where "r \<in> set (issue_group ds k)" "assigned_team r = Some x"
      by blast
    then have "Some x \<in> set (map assigned_team (issue_group ds k))" by force
    from most_common_team_result [OF this] obtain t where
      t: "most_common_team (map assigned_team (issue_group ds k)) = Inr t"
         "most_frequent t (map assigned_team (issue_group ds k))"
         "\<forall>u. most_frequent u (map assigned_team (issue_group ds k)) \<longrightarrow> t \<le> u"
      by blast
    from t(1) that have "team_of k = t"
      by (auto simp: team_of_def most_common_team_def split: if_splits list.splits)
    with t show ?thesis by simp
  qed
  have "aggregate_issue ds k = Inr (row_of k)" if "k \<in> set ?ks" for k
  proof -
    from that have g: "issue_group ds k \<noteq> []" using issue_keys_member [of k ds] by blast
    from team [OF g]
    have "most_common_team (map assigned_team (issue_group ds k)) = Inr (team_of k)" by simp
    then show ?thesis
      by (simp add: aggregate_issue_def group_rows_issue row_of_def Let_def
            issue_frequency_def count_cells_def filter_map comp_def)
  qed
  then have "\<forall>k \<in> set ?ks. aggregate_issue ds k = Inr (row_of k)" by blast
  then have "all_or_error (map (aggregate_issue ds) ?ks) = Inr (map row_of ?ks)"
    by (rule all_or_error_Inr)
  then have run: "get_top_recurring_issues sort_values (Some ds) n =
                    Some (take (nat n) (sort_values (map row_of ?ks)))"
    using ne n by (simp add: get_top_recurring_issues_def head_nonneg)
  let ?all = "sort_values (map row_of ?ks)"
  let ?rows = "take (nat n) ?all"
  have all_set: "set ?all = row_of ` set ?ks"
    by (simp add: descending_frequency_props(1) [OF sorting])
  have "card {k. issue_group ds k \<noteq> []} = length ?ks"
  proof -
    have "{k. issue_group ds k \<noteq> []} = set ?ks" using issue_keys_member [of _ ds] by blast
    then show ?thesis by (simp add: distinct_card del: group_keys_set)
  qed
  then have len: "length ?rows = min (nat n) (card {k. issue_group ds k \<noteq> []})"
    by (simp add: descending_frequency_props(2) [OF sorting] min.commute)
  have "distinct (map ?key (map row_of ?ks))" by (simp add: comp_def key_row)
  then have dist_all: "distinct (map ?key ?all)"
    by (rule descending_frequency_props(3) [OF sorting])
  then have dist: "distinct (map ?key ?rows)"
    by (simp add: take_map [symmetric] distinct_take)
  have sorted_all: "sorted_wrt (\<lambda>a b. frequency b \<le> frequency a) ?all"
    by (rule descending_frequency_props(4) [OF sorting])
  then have srt: "sorted_wrt (\<lambda>a b. frequency b \<le> frequency a) ?rows"
    by (rule sorted_wrt_take)
  have each: "\<forall>row \<in> set ?rows.
              issue_group ds (?key row) \<noteq> [] \<and>
              frequency row = issue_frequency ds (?key row) \<and>
              issue_resolution_time row = mean (map resolution_time (issue_group ds (?key row))) \<and>
              most_frequent (issue_assigned_team row) (map assigned_team (issue_group ds (?key row))) \<and>
              (\<forall>u. most_frequent u (map assigned_team (issue_group ds (?key row))) \<longrightarrow>
                   issue_assigned_team row \<le> u)"
  proof
    fix row assume "row \<in> set ?rows"
    then have "row \<in> set ?all" by (rule in_set_takeD)
    with all_set obtain k where k: "k \<in> set ?ks" "row = row_of k" by auto
    then have g: "issue_group ds k \<noteq> []" using issue_keys_member [of k ds] by blast
    from team [OF g] k(2) g
    show "issue_group ds (?key row) \<noteq> [] \<and>
              frequency row = issue_frequency ds (?key row) \<and>
              issue_resolution_time row = mean (map resolution_time (issue_group ds (?key row))) \<and>
              most_frequent (issue_assigned_team row) (map assigned_team (issue_group ds (?key row))) \<and>
              (\<forall>u. most_frequent u (map assigned_team (issue_group ds (?key row))) \<longrightarrow>
                   issue_assigned_team row \<le> u)"
      by (simp add: row_of_def)
  qed
  have top: "\<forall>k. issue_group ds k \<noteq> [] \<and> k \<notin> set (map ?key ?rows) \<longrightarrow>
                (\<forall>row \<in> set ?rows. issue_frequency ds k \<le> frequency row)"
  proof (intro allI impI ballI)
    fix k row
    assume k: "issue_group ds k \<noteq> [] \<and> k \<notin> set (map ?key ?rows)" and row: "row \<in> set ?rows"
    from k have "k \<in> set ?ks" using issue_keys_member [of k ds] by blast
    then have "row_of k \<in> set ?all" using all_set by blast
    then have "row_of k \<in> set (take (nat n) ?all) \<or> row_of k \<in> set (drop (nat n) ?all)"
      using set_append [of "take (nat n) ?all" "drop (nat n) ?all"] by auto
    moreover have "row_of k \<notin> set ?rows"
    proof
      assume "row_of k \<in> set ?rows"
      then have "?key (row_of k) \<in> ?key ` set ?rows" by (rule imageI)
      then have "?key (row_of k) \<in> set (map ?key ?rows)" by (simp only: set_map)
      with k show False by (simp add: key_row)
    qed
    ultimately have "row_of k \<in> set (drop (nat n) ?all)" by blast
    from sorted_wrt_take_drop [OF sorted_all row this]
    show "issue_frequency ds k \<le> frequency row" by (simp add: freq_row)
  qed
  from run len dist srt each top show ?thesis by blast
qed


lemma tied_teams_key: "group_keys issue_key tied_teams = [(''Network'', ''Link down'')]"
  by code_simp

lemma tied_teams_row:
  "aggregate_issue tied_teams (''Network'', ''Link down'') =
     Inr \<lparr>issue_category = ''Network'', issue_title = ''Link down'', frequency = 2,
          issue_resolution_time = Some 3, issue_assigned_team = ''Alpha''\<rparr>"
  by code_simp

text \<open>
  Claim C4 as stated fails on a tie: of two records of one group, the first assigned to
  \<open>Zeta\<close> and the second to \<open>Alpha\<close>, the team reported is \<open>Alpha\<close>, while
  the mode met first in row order is \<open>Zeta\<close>.
\<close>

theorem get_top_recurring_issues_tie_counterexample:
  "get_top_recurring_issues example_sort_values (Some tied_teams) 10 =
     Some [\<lparr>issue_category = ''Network'', issue_title = ''Link down'', frequency = 2,
            issue_resolution_time = Some 3, issue_assigned_team = ''Alpha''\<rparr>] \<and>
   first_mode_encountered (map assigned_team tied_teams) = Some ''Zeta''"
proof -
  have "tied_teams \<noteq> []" by (simp add: tied_teams_def)
  then have "get_top_recurring_issues example_sort_values (Some tied_teams) 10 =
     Some [\<lparr>issue_category = ''Network'', issue_title = ''Link down'', frequency = 2,
            issue_resolution_time = Some 3, issue_assigned_team = ''Alpha''\<rparr>]"
    by (simp add: get_top_recurring_issues_def tied_teams_key tied_teams_row
          example_sort_values_def head_def)
  moreover have "first_mode_encountered (map assigned_team tied_teams) = Some ''Zeta''"
    by code_simp
  ultimately show ?thesis by simp
qed

lemma scenario_A_keys:
  "group_keys issue_key scenario_A =
     [(''Database'', ''Database outage''), (''Database'', ''Login failure'')]"
  by code_simp

lemma scenario_A_rows:
  "aggregate_issue scenario_A (''Database'', ''Database outage'') =
     Inr \<lparr>issue_category = ''Database'', issue_title = ''Database outage'', frequency = 2,
          issue_resolution_time = Some 4, issue_assigned_team = ''DB Team''\<rparr>"
  "aggregate_issue scenario_A (''Database'', ''Login failure'') =
     Inr \<lparr>issue_category = ''Database'', issue_title = ''Login failure'', frequency = 1,
          issue_resolution_time = Some 1, issue_assigned_team = ''Ops''\<rparr>"
  by code_simp+

lemma scenario_A_result:
  "get_top_recurring_issues example_sort_values (Some scenario_A) 10 =
     Some [\<lparr>issue_category = ''Database'', issue_title = ''Database outage'', frequency = 2,
            issue_resolution_time = Some 4, issue_assigned_team = ''DB Team''\<rparr>,
           \<lparr>issue_category = ''Database'', issue_title = ''Login failure'', frequency = 1,
            issue_resolution_time = Some 1, issue_assigned_team = ''Ops''\<rparr>]"
proof -
  have "scenario_A \<noteq> []" by (simp add: scenario_A_def)
  then show ?thesis
    by (simp add: get_top_recurring_issues_def scenario_A_keys scenario_A_rows
          example_sort_values_def head_def)
qed

theorem get_top_recurring_issues_result_witness:
  "(\<exists>k. issue_group scenario_A k \<noteq> []) \<and> (0 :: int) \<le> 10 \<and>
   (\<exists>rows.
      get_top_recurring_issues example_sort_values (Some scenario_A) 10 = Some rows \<and>
      distinct (map (\<lambda>row. (issue_category row, issue_title row)) rows) \<and>
      sorted_wrt (\<lambda>a b. frequency b \<le> frequency a) rows)"
proof -
  have "issue_group scenario_A (''Database'', ''Login failure'') \<noteq> []"
    by (simp add: issue_group_def scenario_A_def issue_def)
  then have h1: "\<exists>k. issue_group scenario_A k \<noteq> []" by blast
  have all: "\<forall>r \<in> set scenario_A. assigned_team r \<noteq> None"
    by (simp add: scenario_A_def issue_def)
  have h2: "\<forall>k. issue_group scenario_A k \<noteq> [] \<longrightarrow>
              (\<exists>r \<in> set (issue_group scenario_A k). assigned_team r \<noteq> None)"
  proof (intro allI impI)
    fix k assume "issue_group scenario_A k \<noteq> []"
    then obtain r where r: "r \<in> set (issue_group scenario_A k)"
      by (cases "issue_group scenario_A k") auto
    then have "r \<in> set scenario_A" by (simp add: issue_group_def)
    with all r show "\<exists>r \<in> set (issue_group scenario_A k). assigned_team r \<noteq> None" by blast
  qed
  have h3: "(0 :: int) \<le> 10" by simp
  from get_top_recurring_issues_result [OF example_sort_values_descending h1 h2 h3] h1 h3
  show ?thesis by blast
qed

end
